theory Spec2Isabelle
  imports Complex_Main "HOL-Library.Sublist"
begin

section \<open>Strings\<close>

text \<open>
  A JavaScript string is a sequence of code units. It is modelled as a \<^typ>\<open>string\<close>;
  a \<^typ>\<open>char\<close> stands for a code unit in the range 0 .. 255. The operations below
  are the ones the route handlers call on strings.
\<close>

text \<open>The white space and line terminators that \<^verbatim>\<open>String.prototype.trim\<close> strips
  (tab, line feed, vertical tab, form feed, carriage return, space, no-break space).\<close>

definition js_whitespace :: "char \<Rightarrow> bool" where
  "js_whitespace c = (of_char c \<in> {9, 10, 11, 12, 13, 32, 160 :: nat})"

definition trim :: "string \<Rightarrow> string" where
  "trim s = rev (dropWhile js_whitespace (rev (dropWhile js_whitespace s)))"

text \<open>\<^verbatim>\<open>s.startsWith(p)\<close>.\<close>

definition startsWith :: "string \<Rightarrow> string \<Rightarrow> bool" where
  "startsWith s p = prefix p s"

text \<open>\<^verbatim>\<open>s.includes(p)\<close>: \<open>p\<close> occurs at some position of \<open>s\<close>.\<close>

fun js_includes :: "string \<Rightarrow> string \<Rightarrow> bool" where
  "js_includes [] p = (p = [])"
| "js_includes (c # cs) p = (prefix p (c # cs) \<or> js_includes cs p)"

text \<open>\<^verbatim>\<open>s.replace(p, r)\<close> with a string pattern \<open>p\<close>: only the first (leftmost)
  occurrence of \<open>p\<close> is replaced; without an occurrence the string is returned as it is.
  (The handlers call it with \<open>r = ''\<close>, which has no replacement pattern in it.)\<close>

fun replace :: "string \<Rightarrow> string \<Rightarrow> string \<Rightarrow> string" where
  "replace [] p r = (if p = [] then r else [])"
| "replace (c # cs) p r =
     (if prefix p (c # cs) then r @ drop (length p) (c # cs) else c # replace cs p r)"

section \<open>Structured extractor (\<^verbatim>\<open>src/app/api/processor/route.ts\<close>)\<close>

text \<open>
  The DOM and the URL parser are library code. An element is modelled by what the
  extractors read from it; \<^verbatim>\<open>new URL(href, baseUrl).href\<close> is a parameter
  that either throws (\<open>Inl\<close>, the exception) or returns the absolute URL (\<open>Inr\<close>).
\<close>

datatype exn = TypeError string | Error string

type_synonym url_resolver = "string \<Rightarrow> string \<Rightarrow> exn + string"

text \<open>An element matched by \<^verbatim>\<open>a[href]\<close>: the \<^verbatim>\<open>href\<close> attribute (present, by the
  selector) and the \<^verbatim>\<open>textContent\<close>.\<close>

record anchor_el =
  el_href :: string
  el_textContent :: string

record link =
  link_text :: string
  link_href :: string

text \<open>The state of the \<^verbatim>\<open>for ... of\<close> loop of \<^verbatim>\<open>extractLinks\<close> is the array
  \<^verbatim>\<open>links\<close> and the set \<^verbatim>\<open>seenHrefs\<close>. The first test is the \<^verbatim>\<open>break\<close>,
  every other early exit is a \<^verbatim>\<open>continue\<close>; the \<open>Inl\<close> branch is the \<^verbatim>\<open>catch\<close>.\<close>

fun links_loop ::
  "url_resolver \<Rightarrow> string \<Rightarrow> anchor_el list \<Rightarrow> link list \<Rightarrow> string set \<Rightarrow> link list" where
  "links_loop R baseUrl [] links seenHrefs = links"
| "links_loop R baseUrl (el # els) links seenHrefs =
     (if length links \<ge> 100 then links
      else let href = el_href el in
        if href = [] then links_loop R baseUrl els links seenHrefs
        else case R href baseUrl of
          Inl e \<Rightarrow> links_loop R baseUrl els links seenHrefs
        | Inr absoluteHref \<Rightarrow>
            if startsWith absoluteHref ''#'' \<or> absoluteHref \<in> seenHrefs
            then links_loop R baseUrl els links seenHrefs
            else let seenHrefs' = insert absoluteHref seenHrefs;
                     text = trim (el_textContent el) in
              if text \<noteq> [] \<and> absoluteHref \<noteq> []
              then links_loop R baseUrl els
                     (links @ [\<lparr>link_text = text, link_href = absoluteHref\<rparr>]) seenHrefs'
              else links_loop R baseUrl els links seenHrefs')"

definition extractLinks :: "url_resolver \<Rightarrow> anchor_el list \<Rightarrow> string \<Rightarrow> link list" where
  "extractLinks R anchorElements baseUrl = links_loop R baseUrl anchorElements [] {}"

text \<open>An element matched by \<^verbatim>\<open>img[src]\<close>; \<^verbatim>\<open>getAttribute('alt')\<close> is
  \<^verbatim>\<open>null\<close> (\<open>None\<close>) when the attribute is absent.\<close>

record img_el =
  el_src :: string
  el_alt :: "string option"

record image =
  image_src :: string
  image_alt :: string

text \<open>\<^verbatim>\<open>v || ''\<close> for a string or \<^verbatim>\<open>null\<close>.\<close>

definition or_empty :: "string option \<Rightarrow> string" where
  "or_empty v = (case v of None \<Rightarrow> [] | Some s \<Rightarrow> s)"

text \<open>The body of the \<^verbatim>\<open>forEach\<close> callback of \<^verbatim>\<open>extractImages\<close>: each
  \<^verbatim>\<open>return\<close> leaves \<^verbatim>\<open>images\<close> as it was.\<close>

fun images_loop :: "url_resolver \<Rightarrow> string \<Rightarrow> img_el list \<Rightarrow> image list \<Rightarrow> image list" where
  "images_loop R baseUrl [] images = images"
| "images_loop R baseUrl (el # els) images =
     (let src = el_src el in
        if src = [] then images_loop R baseUrl els images
        else case R src baseUrl of
          Inl e \<Rightarrow> images_loop R baseUrl els images
        | Inr absoluteSrc \<Rightarrow>
            images_loop R baseUrl els
              (images @ [\<lparr>image_src = absoluteSrc, image_alt = or_empty (el_alt el)\<rparr>]))"

definition extractImages :: "url_resolver \<Rightarrow> img_el list \<Rightarrow> string \<Rightarrow> image list" where
  "extractImages R imgElements baseUrl = images_loop R baseUrl imgElements []"

text \<open>
  \<^verbatim>\<open>extractWikipediaData\<close>. A row matched by \<^verbatim>\<open>infobox.querySelectorAll('tr')\<close> is
  modelled by the \<^verbatim>\<open>textContent\<close> of \<^verbatim>\<open>row.querySelector('th')\<close> and of
  \<^verbatim>\<open>row.querySelector('td')\<close>, \<open>None\<close> when the row has no such cell.
\<close>

record row_el =
  row_th :: "string option"
  row_td :: "string option"

text \<open>
  \<^verbatim>\<open>infoboxData\<close> is an object literal used as a dictionary. It is modelled as the list
  of its own properties in the order in which \<^verbatim>\<open>Object.keys\<close> enumerates them: first
  the keys that are array indices (the decimal numeral, without leading zeros, of a number
  below \<open>2\<^sup>3\<^sup>2 - 1\<close>) in ascending numeric order, then every other key in the order of
  its creation.
\<close>

type_synonym js_record = "(string \<times> string) list"

definition is_digit :: "char \<Rightarrow> bool" where
  "is_digit c = (48 \<le> (of_char c :: nat) \<and> (of_char c :: nat) \<le> 57)"

definition parse_nat :: "string \<Rightarrow> nat" where
  "parse_nat s = foldl (\<lambda>n c. 10 * n + (of_char c - 48)) 0 s"

fun canonical_digits :: "string \<Rightarrow> bool" where
  "canonical_digits [] = False"
| "canonical_digits [c] = is_digit c"
| "canonical_digits (c # cs) = (is_digit c \<and> c \<noteq> CHR ''0'' \<and> list_all is_digit cs)"

definition is_array_index :: "string \<Rightarrow> bool" where
  "is_array_index k = (canonical_digits k \<and> parse_nat k < 4294967295)"

text \<open>A key \<open>k\<close> that is created is enumerated before the own key \<open>q\<close>.\<close>

definition enumerated_before :: "string \<Rightarrow> string \<Rightarrow> bool" where
  "enumerated_before k q =
     (is_array_index k \<and> (if is_array_index q then parse_nat k < parse_nat q else True))"

text \<open>
  The assignment \<^verbatim>\<open>infoboxData[key] = value\<close>. It overwrites the value of a key that is
  present, which keeps its place, and creates a key that is not. For the key
  \<^verbatim>\<open>__proto__\<close> the assignment reaches the setter inherited from
  \<^verbatim>\<open>Object.prototype\<close>, which ignores a string value: the object keeps its own
  properties as they were.
\<close>

fun record_update :: "string \<Rightarrow> string \<Rightarrow> js_record \<Rightarrow> js_record" where
  "record_update k v [] = [(k, v)]"
| "record_update k v (p # ps) =
     (if fst p = k then (k, v) # ps
      else if enumerated_before k (fst p) then (k, v) # p # ps
      else p # record_update k v ps)"

definition record_assign :: "js_record \<Rightarrow> string \<Rightarrow> string \<Rightarrow> js_record" where
  "record_assign obj key v = (if key = ''__proto__'' then obj else record_update key v obj)"

fun infobox_loop :: "row_el list \<Rightarrow> js_record \<Rightarrow> js_record" where
  "infobox_loop [] infoboxData = infoboxData"
| "infobox_loop (row # rows) infoboxData =
     (case row_th row of
        None \<Rightarrow> infobox_loop rows infoboxData
      | Some th \<Rightarrow>
         (case row_td row of
            None \<Rightarrow> infobox_loop rows infoboxData
          | Some td \<Rightarrow>
             (let key = trim th; value = trim td in
                if key \<noteq> [] \<and> value \<noteq> []
                then infobox_loop rows (record_assign infoboxData key value)
                else infobox_loop rows infoboxData)))"

text \<open>What \<^verbatim>\<open>extractWikipediaData\<close> reads from the document: the rows of the first
  \<^verbatim>\<open>.infobox\<close> element (\<open>None\<close> when \<^verbatim>\<open>querySelector\<close> finds none), the
  \<^verbatim>\<open>textContent\<close> of the category links and of the reference list items.\<close>

record wiki_doc =
  wd_infobox :: "row_el list option"
  wd_categoryLinks :: "string list"
  wd_refList :: "string list"

text \<open>The result object; a property that is never assigned is \<open>None\<close>.\<close>

record wikipedia_data =
  infobox :: "js_record option"
  categories :: "string list option"
  references :: "string list option"

definition extractWikipediaData :: "wiki_doc \<Rightarrow> wikipedia_data" where
  "extractWikipediaData doc =
     \<lparr>infobox =
        (case wd_infobox doc of
           None \<Rightarrow> None
         | Some rows \<Rightarrow>
            (let infoboxData = infobox_loop rows [] in
               if length infoboxData > 0 then Some infoboxData else None)),
      categories =
        (if length (wd_categoryLinks doc) > 0
         then Some (filter (\<lambda>text. length text > 0) (map trim (wd_categoryLinks doc)))
         else None),
      references =
        (if length (wd_refList doc) > 0
         then Some (filter (\<lambda>text. length text > 0) (map trim (take 50 (wd_refList doc))))
         else None)\<rparr>"

section \<open>Markdown image rule (\<^verbatim>\<open>turndownService.addRule('img', ...)\<close>)\<close>

text \<open>The rule's \<^verbatim>\<open>replacement\<close> function reads two attributes of the node;
  \<^verbatim>\<open>getAttribute\<close> returns \<^verbatim>\<open>null\<close> (\<open>None\<close>) for an absent attribute.\<close>

record img_node =
  node_alt :: "string option"
  node_src :: "string option"

definition img_replacement :: "img_node \<Rightarrow> string" where
  "img_replacement node =
     (let alt = or_empty (node_alt node);
          src = or_empty (node_src node)
      in if src \<noteq> [] then ''!['' @ alt @ ''](''  @ src @ '')'' else [])"

section \<open>Transcript rendering (\<^verbatim>\<open>src/app/api/processor/transcript/route.ts\<close>)\<close>

text \<open>
  A transcript item carries its offset in milliseconds and its caption text. The
  arithmetic of the source is on numbers; it is modelled on the reals (the rounding of
  doubles is not modelled). \<^verbatim>\<open>a % n\<close> is the remainder of the division truncated
  towards zero, for \<open>n \<noteq> 0\<close>.
\<close>

record transcript_item =
  item_offset :: nat
  item_text :: string

definition js_trunc :: "real \<Rightarrow> int" where
  "js_trunc x = (if x \<ge> 0 then \<lfloor>x\<rfloor> else \<lceil>x\<rceil>)"

definition js_rem :: "real \<Rightarrow> real \<Rightarrow> real" where
  "js_rem a n = a - n * of_int (js_trunc (a / n))"

text \<open>\<^verbatim>\<open>toString\<close> of a non-negative integer below \<open>10\<^sup>2\<^sup>1\<close>: its decimal digits.\<close>

definition digit_char :: "nat \<Rightarrow> char" where
  "digit_char d = ''0123456789'' ! d"

fun nat_toString :: "nat \<Rightarrow> string" where
  "nat_toString n = (if n < 10 then [digit_char n] else nat_toString (n div 10) @ [digit_char (n mod 10)])"

declare nat_toString.simps [simp del]

text \<open>\<^verbatim>\<open>s.padStart(n, '0')\<close>.\<close>

definition padStart0 :: "string \<Rightarrow> nat \<Rightarrow> string" where
  "padStart0 s n = replicate (n - length s) CHR ''0'' @ s"

definition minutes_of :: "nat \<Rightarrow> nat" where
  "minutes_of offset = nat \<lfloor>real offset / 1000 / 60\<rfloor>"

definition seconds_of :: "nat \<Rightarrow> string" where
  "seconds_of offset = padStart0 (nat_toString (nat \<lfloor>js_rem (real offset / 1000) 60\<rfloor>)) 2"

text \<open>The text one item adds to \<^verbatim>\<open>transcriptMarkdown\<close>.\<close>

definition transcript_line :: "transcript_item \<Rightarrow> string" where
  "transcript_line item =
     ''**'' @ nat_toString (minutes_of (item_offset item)) @ '':'' @ seconds_of (item_offset item)
       @ ''** - '' @ item_text item @ [CHR 0x0A, CHR 0x0A]"

text \<open>
  The block built from the result of \<^verbatim>\<open>fetchTranscriptWithTimeout\<close>, which is
  \<^verbatim>\<open>null\<close> (\<open>None\<close>) when the fetch threw or the 25 s timer won the race, and the
  array of items otherwise.
\<close>

definition transcript_error_note :: string where
  "transcript_error_note =
     [CHR 0x0A, CHR 0x0A] @ ''**Error:** Could not fetch transcript (Captions might be disabled)''
       @ [CHR 0x0A]"

definition transcript_heading :: string where
  "transcript_heading = [CHR 0x0A, CHR 0x0A] @ ''## Transcript'' @ [CHR 0x0A, CHR 0x0A]"

definition build_transcriptMarkdown :: "transcript_item list option \<Rightarrow> string" where
  "build_transcriptMarkdown transcript =
     (case transcript of
        None \<Rightarrow> transcript_error_note
      | Some items \<Rightarrow> foldl (\<lambda>md item. md @ transcript_line item) transcript_heading items)"

section \<open>Route handlers\<close>

text \<open>
  A handler returns \<^verbatim>\<open>NextResponse.json({ error }, { status })\<close> (\<open>Failure\<close>) or
  \<^verbatim>\<open>NextResponse.json(payload)\<close> (\<open>Ok\<close>, status 200). What a handler obtains from its
  collaborators (the session, the JSON parser, the network, the DOM and article libraries,
  the database driver, the clock) is read from an environment; an operation that can
  throw returns \<open>exn + _\<close>.
\<close>

datatype 'a response = Failure nat string | Ok 'a

fun message :: "exn \<Rightarrow> string" where
  "message (TypeError m) = m"
| "message (Error m) = m"

text \<open>\<^verbatim>\<open>s || d\<close> for strings.\<close>

definition str_or :: "string \<Rightarrow> string \<Rightarrow> string" where
  "str_or s d = (if s \<noteq> [] then s else d)"

definition nl :: string where
  "nl = [CHR 0x0A]"

record user =
  user_id :: string
  user_isPro :: bool
  user_emailAddresses :: "string list"

text \<open>The properties of the parsed request body that the handlers read; a missing
  property is \<open>None\<close>. (Bodies whose \<^verbatim>\<open>url\<close> or \<^verbatim>\<open>docId\<close> is not a string are
  outside the model.)\<close>

record body =
  body_docId :: "string option"
  body_url :: "string option"

record metadata =
  md_title :: string
  md_channel :: string
  md_description :: string

record http_response =
  resp_ok :: bool
  resp_status :: nat
  resp_statusText :: string
  resp_text :: string

text \<open>The object returned by \<^verbatim>\<open>Readability.parse\<close>; its properties may be \<^verbatim>\<open>null\<close>.\<close>

record article =
  art_title :: "string option"
  art_content :: "string option"
  art_textContent :: "string option"
  art_siteName :: "string option"
  art_byline :: "string option"
  art_excerpt :: "string option"

record heading_el =
  h_level :: nat
  h_textContent :: string

text \<open>What the handlers read from a \<^verbatim>\<open>JSDOM\<close> document: the \<^verbatim>\<open>lang\<close> attribute of the
  root, the elements matched by the extractors' selectors in document order, and the
  result that \<^verbatim>\<open>new Readability(doc).parse()\<close> has on it.\<close>

record dom =
  dom_lang :: "string option"
  dom_headings :: "heading_el list"
  dom_anchors :: "anchor_el list"
  dom_imgs :: "img_el list"
  dom_wiki :: wiki_doc
  dom_article :: "article option"

datatype transcript_outcome = Resolved "transcript_item list" | Rejected exn | TimedOut

datatype db_op = Count | Upsert | Create | FindUnique | Update

record env =
  currentUser :: "user option"
  JSON_parse :: "string \<Rightarrow> exn + body"
  URL_hostname :: "string \<Rightarrow> exn + string"
  URL_href :: url_resolver
  fetch :: "string \<Rightarrow> exn + http_response"
  getYouTubeMetadata :: "string \<Rightarrow> metadata option"
  YoutubeTranscript_fetchTranscript :: "string \<Rightarrow> transcript_outcome"
  sanitize :: "string \<Rightarrow> string"
  JSDOM :: "string \<Rightarrow> string \<Rightarrow> dom"
  turndown :: "(img_node \<Rightarrow> string) option \<Rightarrow> string list \<Rightarrow> string \<Rightarrow> string"
  randomUUID :: string
  now_ISO :: string
  db_error :: "db_op \<Rightarrow> exn option"
  db_new_id :: string

text \<open>
  \<^verbatim>\<open>new URL(url)\<close> throws a \<^verbatim>\<open>TypeError\<close> for a string that does not parse as an
  absolute URL (\<open>URL_hostname\<close> is \<open>Inl\<close>). For such a string \<^verbatim>\<open>fetch(url)\<close> makes no
  request and throws a \<^verbatim>\<open>TypeError\<close> of its own, with the message
  \<^verbatim>\<open>Failed to parse URL from \<close> followed by the string.
\<close>

definition js_fetch :: "env \<Rightarrow> string \<Rightarrow> exn + http_response" where
  "js_fetch E url =
     (case URL_hostname E url of
        Inl e \<Rightarrow> Inl (TypeError (''Failed to parse URL from '' @ url))
      | Inr host \<Rightarrow> fetch E url)"

definition isYoutubeUrl :: "string \<Rightarrow> bool" where
  "isYoutubeUrl url = (js_includes url ''youtube.com'' \<or> js_includes url ''youtu.be'')"

text \<open>\<^verbatim>\<open>fetchTranscriptWithTimeout\<close>: the library's promise raced against a timer that
  rejects; a rejection of either is caught and gives \<^verbatim>\<open>null\<close>.\<close>

definition fetchTranscriptWithTimeout :: "env \<Rightarrow> string \<Rightarrow> transcript_item list option" where
  "fetchTranscriptWithTimeout E url =
     (case YoutubeTranscript_fetchTranscript E url of
        Resolved items \<Rightarrow> Some items
      | Rejected e \<Rightarrow> None
      | TimedOut \<Rightarrow> None)"

subsection \<open>The variables a processing branch assigns\<close>

record page =
  pg_title :: string
  pg_markdown :: string
  pg_siteName :: string
  pg_content :: string
  pg_textContent :: string
  pg_needsTranscript :: bool

definition placeholder :: string where
  "placeholder = ''_Fetching transcript..._''"

text \<open>The YouTube branch (``metadata mode'') of the processor handlers. \<open>m\<close> is the result
  of \<^verbatim>\<open>getYouTubeMetadata\<close>, which catches what its requests throw and returns the
  metadata or \<^verbatim>\<open>null\<close>.\<close>

definition youtube_markdown :: "string \<Rightarrow> string \<Rightarrow> string \<Rightarrow> string \<Rightarrow> string" where
  "youtube_markdown title siteName description url =
     ''# '' @ title @ nl
       @ ''**Channel:** '' @ siteName @ '' | **Source:** [YouTube]('' @ url @ '')'' @ nl @ nl
       @ (if description \<noteq> [] then ''> '' @ description @ nl @ nl else [])
       @ placeholder"

definition youtube_mode :: "metadata option \<Rightarrow> string \<Rightarrow> page" where
  "youtube_mode m url =
     (let title = str_or (case m of None \<Rightarrow> [] | Some d \<Rightarrow> md_title d) (''YouTube Transcript: '' @ url);
          siteName = str_or (case m of None \<Rightarrow> [] | Some d \<Rightarrow> md_channel d) ''YouTube'';
          description = (case m of None \<Rightarrow> [] | Some d \<Rightarrow> md_description d)
      in \<lparr>pg_title = title,
          pg_markdown = youtube_markdown title siteName description url,
          pg_siteName = siteName,
          pg_content =
            ''<h1>'' @ title @ ''</h1><p><strong>Channel:</strong> '' @ siteName @ ''</p>''
              @ (if description \<noteq> [] then ''<blockquote>'' @ description @ ''</blockquote>'' else [])
              @ ''<p><em>Fetching transcript...</em></p>'',
          pg_textContent =
            title @ nl @ ''Channel: '' @ siteName @ nl @ nl @ description @ nl @ nl
              @ ''Fetching transcript...'',
          pg_needsTranscript = True\<rparr>)"

text \<open>The \<^verbatim>\<open>try\<close> block of the web scraper branch, from the parsed article on; \<open>Inl\<close> is
  what it throws.\<close>

definition article_page :: "env \<Rightarrow> string \<Rightarrow> article option \<Rightarrow> exn + page" where
  "article_page E url parsed =
     (case parsed of
        None \<Rightarrow> Inl (Error ''Readability could not parse content'')
      | Some article \<Rightarrow>
          if or_empty (art_content article) = []
          then Inl (Error ''Readability could not parse content'')
          else
            (case (if or_empty (art_siteName article) \<noteq> []
                   then Inr (or_empty (art_siteName article)) else URL_hostname E url) of
               Inl e \<Rightarrow> Inl e
             | Inr siteName \<Rightarrow>
                 Inr \<lparr>pg_title = str_or (or_empty (art_title article)) ''Untitled'',
                      pg_markdown =
                        turndown E None [''script'', ''style'', ''noscript'', ''iframe'']
                          (or_empty (art_content article)),
                      pg_siteName = siteName,
                      pg_content = or_empty (art_content article),
                      pg_textContent = or_empty (art_textContent article),
                      pg_needsTranscript = False\<rparr>))"

definition fetch_page :: "env \<Rightarrow> string \<Rightarrow> exn + string" where
  "fetch_page E url =
     (case js_fetch E url of
        Inl e \<Rightarrow> Inl e
      | Inr response \<Rightarrow>
          if \<not> resp_ok response
          then Inl (Error (''Failed to fetch page: '' @ nat_toString (resp_status response)
                            @ '' '' @ resp_statusText response))
          else Inr (resp_text response))"

definition scrape_failure :: "exn \<Rightarrow> 'a response" where
  "scrape_failure scrapeError = Failure 422 (str_or (message scrapeError) ''Failed to scrape URL'')"

text \<open>\<^verbatim>\<open>text ? JSON.parse(text) : {}\<close>\<close>

definition parse_body :: "env \<Rightarrow> string \<Rightarrow> exn + body" where
  "parse_body E text =
     (if text \<noteq> [] then JSON_parse E text else Inr \<lparr>body_docId = None, body_url = None\<rparr>)"

subsection \<open>The document store\<close>

text \<open>The rows of the two tables the handlers use. A failure of the driver is decided by
  the environment; \<^verbatim>\<open>create\<close> draws the new id from it and fails on an id that is
  taken, \<^verbatim>\<open>update\<close> fails when no row has the id.\<close>

record document =
  doc_id :: string
  doc_url :: string
  doc_title :: string
  doc_siteName :: string
  doc_markdown :: "string option"
  doc_userId :: string

record store =
  st_users :: "(string \<times> string) list"
  st_documents :: "document list"

definition db_count :: "env \<Rightarrow> store \<Rightarrow> string \<Rightarrow> exn + nat" where
  "db_count E st uid =
     (case db_error E Count of
        Some e \<Rightarrow> Inl e
      | None \<Rightarrow> Inr (length (filter (\<lambda>d. doc_userId d = uid) (st_documents st))))"

fun upsert_row :: "string \<Rightarrow> string \<Rightarrow> (string \<times> string) list \<Rightarrow> (string \<times> string) list" where
  "upsert_row uid email [] = [(uid, email)]"
| "upsert_row uid email (r # rs) =
     (if fst r = uid then (uid, email) # rs else r # upsert_row uid email rs)"

definition db_upsert_user :: "env \<Rightarrow> store \<Rightarrow> string \<Rightarrow> string \<Rightarrow> exn + store" where
  "db_upsert_user E st uid email =
     (case db_error E Upsert of
        Some e \<Rightarrow> Inl e
      | None \<Rightarrow> Inr (st\<lparr>st_users := upsert_row uid email (st_users st)\<rparr>))"

definition db_findUnique :: "env \<Rightarrow> store \<Rightarrow> string \<Rightarrow> exn + document option" where
  "db_findUnique E st docId =
     (case db_error E FindUnique of
        Some e \<Rightarrow> Inl e
      | None \<Rightarrow> Inr (find (\<lambda>d. doc_id d = docId) (st_documents st)))"

definition db_create ::
  "env \<Rightarrow> store \<Rightarrow> string \<Rightarrow> string \<Rightarrow> string \<Rightarrow> string \<Rightarrow> string \<Rightarrow> exn + document \<times> store" where
  "db_create E st url title siteName markdown userId =
     (case db_error E Create of
        Some e \<Rightarrow> Inl e
      | None \<Rightarrow>
          if db_new_id E \<in> doc_id ` set (st_documents st)
          then Inl (Error ''Unique constraint failed'')
          else
            (let savedDoc = \<lparr>doc_id = db_new_id E, doc_url = url, doc_title = title,
                             doc_siteName = siteName, doc_markdown = Some markdown,
                             doc_userId = userId\<rparr>
             in Inr (savedDoc, st\<lparr>st_documents := st_documents st @ [savedDoc]\<rparr>)))"

definition db_update :: "env \<Rightarrow> store \<Rightarrow> string \<Rightarrow> string \<Rightarrow> exn + document \<times> store" where
  "db_update E st docId markdown =
     (case db_error E Update of
        Some e \<Rightarrow> Inl e
      | None \<Rightarrow>
          (case find (\<lambda>d. doc_id d = docId) (st_documents st) of
             None \<Rightarrow> Inl (Error ''Record to update not found'')
           | Some d \<Rightarrow>
               Inr (d\<lparr>doc_markdown := Some markdown\<rparr>,
                    st\<lparr>st_documents :=
                         map (\<lambda>d. if doc_id d = docId then d\<lparr>doc_markdown := Some markdown\<rparr> else d)
                           (st_documents st)\<rparr>)))"

subsection \<open>\<^verbatim>\<open>POST\<close> of the processor route with accounts (\<^verbatim>\<open>unnamed/part_001\<close>)\<close>

record saved_result =
  sr_id :: string
  sr_page :: page
  sr_warning :: "string option"

text \<open>Step 2, the limit check: \<open>Inr True\<close> when the free limit is reached.\<close>

definition limit_reached :: "env \<Rightarrow> store \<Rightarrow> user \<Rightarrow> exn + bool" where
  "limit_reached E st u =
     (if \<not> user_isPro u
      then (case db_count E st (user_id u) of Inl e \<Rightarrow> Inl e | Inr docCount \<Rightarrow> Inr (docCount \<ge> 20))
      else Inr False)"

text \<open>Step 4, the user sync; whatever it throws is logged and dropped.\<close>

definition user_sync :: "env \<Rightarrow> store \<Rightarrow> user \<Rightarrow> store" where
  "user_sync E st u =
     (case user_emailAddresses u of
        [] \<Rightarrow> st
      | email # _ \<Rightarrow> (case db_upsert_user E st (user_id u) email of Inl e \<Rightarrow> st | Inr st' \<Rightarrow> st'))"

definition scraper_mode :: "env \<Rightarrow> string \<Rightarrow> exn + page" where
  "scraper_mode E url =
     (case fetch_page E url of
        Inl e \<Rightarrow> Inl e
      | Inr html \<Rightarrow> article_page E url (dom_article (JSDOM E (sanitize E html) url)))"

text \<open>Step 6, saving the document.\<close>

definition save_document ::
  "env \<Rightarrow> store \<Rightarrow> user \<Rightarrow> string \<Rightarrow> page \<Rightarrow> saved_result response \<times> store" where
  "save_document E st u url pg =
     (case db_create E st url (str_or (pg_title pg) ''Untitled'') (pg_siteName pg)
             (pg_markdown pg) (user_id u) of
        Inl dbError \<Rightarrow>
          (Ok \<lparr>sr_id = ''temp-'' @ randomUUID E, sr_page = pg,
                sr_warning = Some ''Could not save to history''\<rparr>, st)
      | Inr (savedDoc, st') \<Rightarrow>
          (Ok \<lparr>sr_id = doc_id savedDoc, sr_page = pg, sr_warning = None\<rparr>, st'))"

definition processor_POST_saving ::
  "env \<Rightarrow> store \<Rightarrow> string \<Rightarrow> saved_result response \<times> store" where
  "processor_POST_saving E st text =
     (case currentUser E of
        None \<Rightarrow> (Failure 401 ''Unauthorized'', st)
      | Some u \<Rightarrow>
         (case limit_reached E st u of
            Inl globalError \<Rightarrow> (Failure 500 ''Internal Server Error'', st)
          | Inr True \<Rightarrow>
              (Failure 403 ''Free limit reached (20 docs). Upgrade to Pro for unlimited access.'', st)
          | Inr False \<Rightarrow>
             (case parse_body E text of
                Inl e \<Rightarrow> (Failure 400 ''Invalid JSON body'', st)
              | Inr b \<Rightarrow>
                 (case body_url b of
                    None \<Rightarrow> (Failure 400 ''URL is required'', st)
                  | Some url \<Rightarrow>
                     if url = [] then (Failure 400 ''URL is required'', st)
                     else
                       (let st1 = user_sync E st u in
                          if isYoutubeUrl url
                          then save_document E st1 u url (youtube_mode (getYouTubeMetadata E url) url)
                          else
                            (case scraper_mode E url of
                               Inl scrapeError \<Rightarrow> (scrape_failure scrapeError, st1)
                             | Inr pg \<Rightarrow> save_document E st1 u url pg))))))"

subsection \<open>\<^verbatim>\<open>POST\<close> of the transcript route with accounts (\<^verbatim>\<open>unnamed/part_000\<close>)\<close>

text \<open>
  The inner \<^verbatim>\<open>try\<close> block assigns \<^verbatim>\<open>transcriptMarkdown\<close>; with a result that is
  \<^verbatim>\<open>null\<close> or an array of items nothing in it throws. \<^verbatim>\<open>doc.markdown || ''\<close> is
  \<open>or_empty\<close>.
\<close>

definition update_markdown :: "string \<Rightarrow> string \<Rightarrow> string" where
  "update_markdown currentMarkdown transcriptMarkdown =
     replace currentMarkdown ''_Fetching transcript..._'' [] @ transcriptMarkdown"

definition transcript_POST_saving ::
  "env \<Rightarrow> store \<Rightarrow> string \<Rightarrow> string option response \<times> store" where
  "transcript_POST_saving E st text =
     (case currentUser E of
        None \<Rightarrow> (Failure 401 ''Unauthorized'', st)
      | Some u \<Rightarrow>
         (case JSON_parse E text of
            Inl error \<Rightarrow> (Failure 500 (message error), st)
          | Inr b \<Rightarrow>
              if or_empty (body_docId b) = [] \<or> or_empty (body_url b) = []
              then (Failure 400 ''Missing docId or url'', st)
              else
                (let docId = or_empty (body_docId b); url = or_empty (body_url b) in
                   case db_findUnique E st docId of
                     Inl error \<Rightarrow> (Failure 500 (message error), st)
                   | Inr None \<Rightarrow> (Failure 404 ''Document not found'', st)
                   | Inr (Some doc) \<Rightarrow>
                       if doc_userId doc \<noteq> user_id u
                       then (Failure 403 ''Unauthorized access to document'', st)
                       else
                         (let transcriptMarkdown =
                                build_transcriptMarkdown (fetchTranscriptWithTimeout E url);
                              currentMarkdown = or_empty (doc_markdown doc);
                              newMarkdown = update_markdown currentMarkdown transcriptMarkdown
                          in case db_update E st docId newMarkdown of
                               Inl error \<Rightarrow> (Failure 500 (message error), st)
                             | Inr (updatedDoc, st') \<Rightarrow> (Ok (doc_markdown updatedDoc), st')))))"

subsection \<open>\<^verbatim>\<open>POST\<close> of \<^verbatim>\<open>src/app/api/processor/transcript/route.ts\<close>\<close>

definition transcript_POST :: "env \<Rightarrow> string \<Rightarrow> string response" where
  "transcript_POST E text =
     (case JSON_parse E text of
        Inl error \<Rightarrow> Failure 500 (message error)
      | Inr b \<Rightarrow>
          if or_empty (body_url b) = [] then Failure 400 ''Missing url''
          else Ok (build_transcriptMarkdown (fetchTranscriptWithTimeout E (or_empty (body_url b)))))"

subsection \<open>\<^verbatim>\<open>POST\<close> of \<^verbatim>\<open>src/app/api/processor/route.ts\<close>\<close>

record heading =
  heading_level :: nat
  heading_text :: string

definition extractHeadings :: "heading_el list \<Rightarrow> heading list" where
  "extractHeadings headingElements =
     map (\<lambda>el. \<lparr>heading_level = h_level el, heading_text = trim (h_textContent el)\<rparr>)
       (filter (\<lambda>el. trim (h_textContent el) \<noteq> []) headingElements)"

text \<open>\<^verbatim>\<open>textContent.split(/\s+/).filter(word => word.length > 0).length\<close>: the number of
  maximal runs of characters that are not white space.\<close>

fun split_ws :: "string \<Rightarrow> string list" where
  "split_ws [] = [[]]"
| "split_ws (c # cs) =
     (if js_whitespace c then [] # split_ws cs
      else (case split_ws cs of [] \<Rightarrow> [[c]] | w # ws \<Rightarrow> (c # w) # ws))"

definition wordCount :: "string \<Rightarrow> nat" where
  "wordCount textContent = length (filter (\<lambda>word. length word > 0) (split_ws textContent))"

record enhanced =
  en_language :: string
  en_headings :: "heading list"
  en_links :: "link list"
  en_images :: "image list"
  en_wikipedia :: "wikipedia_data option"

record processed =
  pr_id :: string
  pr_page :: page
  pr_sourceUrl :: string
  pr_scrapedAt :: string
  pr_wordCount :: nat
  pr_enhanced :: "enhanced option"

text \<open>\<^verbatim>\<open>wikipedia && Object.keys(wikipedia).length > 0\<close>\<close>

definition wikipedia_field :: "wikipedia_data option \<Rightarrow> wikipedia_data option" where
  "wikipedia_field w =
     (case w of
        None \<Rightarrow> None
      | Some d \<Rightarrow>
          if infobox d \<noteq> None \<or> categories d \<noteq> None \<or> references d \<noteq> None then Some d else None)"

text \<open>The \<^verbatim>\<open>try\<close> block of the web scraper branch; \<open>Inl\<close> is what it throws.\<close>

definition scraper_mode_enhanced :: "env \<Rightarrow> string \<Rightarrow> exn + page \<times> enhanced" where
  "scraper_mode_enhanced E url =
     (case fetch_page E url of
        Inl e \<Rightarrow> Inl e
      | Inr html \<Rightarrow>
         (let doc = JSDOM E (sanitize E html) url;
              language = or_empty (dom_lang doc);
              headings = extractHeadings (dom_headings doc);
              links = extractLinks (URL_href E) (dom_anchors doc) url;
              images = extractImages (URL_href E) (dom_imgs doc) url;
              wikipedia = (if js_includes url ''wikipedia.org''
                           then Some (extractWikipediaData (dom_wiki (JSDOM E html url)))
                           else None)
          in case article_page E url (dom_article doc) of
               Inl e \<Rightarrow> Inl e
             | Inr pg \<Rightarrow>
                 Inr (pg, \<lparr>en_language = language, en_headings = headings, en_links = links,
                           en_images = images, en_wikipedia = wikipedia_field wikipedia\<rparr>)))"

definition processor_POST :: "env \<Rightarrow> string \<Rightarrow> processed response" where
  "processor_POST E text =
     (case parse_body E text of
        Inl e \<Rightarrow> Failure 400 ''Invalid JSON body''
      | Inr b \<Rightarrow>
         (case body_url b of
            None \<Rightarrow> Failure 400 ''URL is required''
          | Some url \<Rightarrow>
             if url = [] then Failure 400 ''URL is required''
             else if isYoutubeUrl url
             then
               (let pg = youtube_mode (getYouTubeMetadata E url) url
                in Ok \<lparr>pr_id = ''doc-'' @ randomUUID E, pr_page = pg, pr_sourceUrl = url,
                        pr_scrapedAt = now_ISO E, pr_wordCount = wordCount (pg_textContent pg),
                        pr_enhanced = None\<rparr>)
             else
               (case scraper_mode_enhanced E url of
                  Inl scrapeError \<Rightarrow> scrape_failure scrapeError
                | Inr (pg, en) \<Rightarrow>
                    Ok \<lparr>pr_id = ''doc-'' @ randomUUID E, pr_page = pg, pr_sourceUrl = url,
                        pr_scrapedAt = now_ISO E, pr_wordCount = wordCount (pg_textContent pg),
                        pr_enhanced = Some en\<rparr>)))"

subsection \<open>\<^verbatim>\<open>POST\<close> of the process route (\<^verbatim>\<open>unnamed/part_002\<close>, lines 7 to 87)\<close>

record parsed_article =
  pa_title :: "string option"
  pa_content :: "string option"
  pa_textContent :: "string option"
  pa_markdown :: string
  pa_siteName :: "string option"
  pa_byline :: "string option"
  pa_excerpt :: "string option"

text \<open>Here \<^verbatim>\<open>request.json()\<close> is not guarded: what it throws, and what \<^verbatim>\<open>fetch\<close>
  throws, reaches the outer \<^verbatim>\<open>catch\<close>.\<close>

definition unexpected_failure :: "exn \<Rightarrow> 'a response" where
  "unexpected_failure error = Failure 500 (str_or (message error) ''Internal Server Error'')"

definition process_POST :: "env \<Rightarrow> string \<Rightarrow> parsed_article response" where
  "process_POST E text =
     (case JSON_parse E text of
        Inl error \<Rightarrow> unexpected_failure error
      | Inr b \<Rightarrow>
          if or_empty (body_url b) = [] then Failure 400 ''URL is required''
          else
            (let url = or_empty (body_url b) in
               case URL_hostname E url of
                 Inl e \<Rightarrow> Failure 400 ''Invalid URL format''
               | Inr host \<Rightarrow>
                  (case js_fetch E url of
                     Inl error \<Rightarrow> unexpected_failure error
                   | Inr response \<Rightarrow>
                       if \<not> resp_ok response
                       then Failure (resp_status response)
                              (''Failed to fetch URL: '' @ resp_statusText response)
                       else
                         (case dom_article (JSDOM E (sanitize E (resp_text response)) url) of
                            None \<Rightarrow> Failure 422 ''Failed to parse content from this URL''
                          | Some article \<Rightarrow>
                              if or_empty (art_content article) = []
                              then Failure 422 ''Failed to parse content from this URL''
                              else
                                Ok \<lparr>pa_title = art_title article,
                                    pa_content = art_content article,
                                    pa_textContent = art_textContent article,
                                    pa_markdown =
                                      turndown E (Some img_replacement)
                                        [''script'', ''style'', ''noscript'']
                                        (or_empty (art_content article)),
                                    pa_siteName = art_siteName article,
                                    pa_byline = art_byline article,
                                    pa_excerpt = art_excerpt article\<rparr>))))"

section \<open>Notions used to state the properties\<close>

text \<open>The specification's reading of an infobox row: its key and value are the trimmed
  texts of the header and data cell (empty for a missing cell), and the row is complete
  when both cells exist and both texts are non-empty.\<close>

definition row_key :: "row_el \<Rightarrow> string" where
  "row_key row = trim (or_empty (row_th row))"

definition row_value :: "row_el \<Rightarrow> string" where
  "row_value row = trim (or_empty (row_td row))"

definition row_complete :: "row_el \<Rightarrow> bool" where
  "row_complete row =
     (row_th row \<noteq> None \<and> row_td row \<noteq> None \<and> row_key row \<noteq> [] \<and> row_value row \<noteq> [])"

text \<open>
  The specification's reading of link discovery. An anchor is a candidate when its
  \<^verbatim>\<open>href\<close> is not empty and resolves to a URL that does not start with \<^verbatim>\<open>#\<close>; the
  candidate carries the trimmed text and the resolved URL. Of the candidates, those are
  kept whose URL is not in \<open>seen\<close> and not the URL of an earlier candidate.
\<close>

definition link_candidate :: "url_resolver \<Rightarrow> string \<Rightarrow> anchor_el \<Rightarrow> link option" where
  "link_candidate R baseUrl el =
     (if el_href el = [] then None
      else case R (el_href el) baseUrl of
        Inl e \<Rightarrow> None
      | Inr a \<Rightarrow> if startsWith a ''#'' then None
                 else Some \<lparr>link_text = trim (el_textContent el), link_href = a\<rparr>)"

definition first_with_href :: "string set \<Rightarrow> link list \<Rightarrow> link list" where
  "first_with_href seen cs =
     map (\<lambda>i. cs ! i)
       (filter (\<lambda>i. link_href (cs ! i) \<notin> seen \<union> link_href ` set (take i cs)) [0..<length cs])"

text \<open>An infobox of five label/value rows, three of them with an empty value.\<close>

definition five_rows :: "row_el list" where
  "five_rows =
     [\<lparr>row_th = Some ''Born'', row_td = Some ''1 May 1900''\<rparr>,
      \<lparr>row_th = Some ''Died'', row_td = Some []\<rparr>,
      \<lparr>row_th = Some ''Spouse'', row_td = Some '' ''\<rparr>,
      \<lparr>row_th = Some '' Occupation '', row_td = Some '' Engineer''\<rparr>,
      \<lparr>row_th = Some ''Awards'', row_td = Some []\<rparr>]"

text \<open>The Markdown of the YouTube branch without its last line break and the
  placeholder.\<close>

definition youtube_header :: "string \<Rightarrow> string \<Rightarrow> string \<Rightarrow> string \<Rightarrow> string" where
  "youtube_header title siteName description url =
     ''# '' @ title @ nl
       @ ''**Channel:** '' @ siteName @ '' | **Source:** [YouTube]('' @ url @ '')'' @ nl
       @ (if description \<noteq> [] then nl @ ''> '' @ description @ nl else [])"

text \<open>The metadata of a video does not contain the placeholder text.\<close>

definition metadata_free :: "metadata option \<Rightarrow> bool" where
  "metadata_free m =
     (case m of
        None \<Rightarrow> True
      | Some d \<Rightarrow> \<not> js_includes (md_title d) placeholder
                 \<and> \<not> js_includes (md_channel d) placeholder
                 \<and> \<not> js_includes (md_description d) placeholder)"

subsection \<open>An example environment\<close>

text \<open>
  A signed-in user on the free plan, a body parser that reads the request text as
  \<^verbatim>\<open>{ docId: 'doc_1', url: text }\<close>, a URL parser that accepts what starts with
  \<^verbatim>\<open>https://\<close>, a network that answers every request with an empty page in which
  no article is found, a database that works. The video metadata and the outcome of the
  transcript request are parameters.
\<close>

definition demo_user :: user where
  "demo_user = \<lparr>user_id = ''user_1'', user_isPro = False, user_emailAddresses = [''ada@example.com'']\<rparr>"

definition demo_env :: "metadata option \<Rightarrow> transcript_outcome \<Rightarrow> env" where
  "demo_env m outcome =
     \<lparr>currentUser = Some demo_user,
      JSON_parse = (\<lambda>text. Inr \<lparr>body_docId = Some ''doc_1'', body_url = Some text\<rparr>),
      URL_hostname = (\<lambda>url. if startsWith url ''https://''
                              then Inr (takeWhile (\<lambda>c. c \<noteq> CHR ''/'') (drop 8 url))
                              else Inl (TypeError ''Invalid URL'')),
      URL_href = (\<lambda>href baseUrl. Inr (baseUrl @ href)),
      fetch = (\<lambda>url. Inr \<lparr>resp_ok = True, resp_status = 200, resp_statusText = ''OK'',
                             resp_text = ''<html></html>''\<rparr>),
      getYouTubeMetadata = (\<lambda>url. m),
      YoutubeTranscript_fetchTranscript = (\<lambda>url. outcome),
      sanitize = (\<lambda>html. html),
      JSDOM = (\<lambda>html url.
                 \<lparr>dom_lang = None, dom_headings = [], dom_anchors = [], dom_imgs = [],
                  dom_wiki = \<lparr>wd_infobox = None, wd_categoryLinks = [], wd_refList = []\<rparr>,
                  dom_article = None\<rparr>),
      turndown = (\<lambda>rule removed content. content),
      randomUUID = ''00000000-0000-4000-8000-000000000000'',
      now_ISO = ''2024-01-01T00:00:00.000Z'',
      db_error = (\<lambda>op. None),
      db_new_id = ''doc_1''\<rparr>"

definition empty_store :: store where
  "empty_store = \<lparr>st_users = [], st_documents = []\<rparr>"

definition demo_metadata :: metadata where
  "demo_metadata = \<lparr>md_title = ''A talk'', md_channel = ''A channel'', md_description = ''About''\<rparr>"

text \<open>A stored document that has no placeholder in its Markdown.\<close>

definition demo_document :: document where
  "demo_document =
     \<lparr>doc_id = ''doc_1'', doc_url = ''https://youtu.be/abc'', doc_title = ''A talk'',
      doc_siteName = ''A channel'', doc_markdown = Some ''Notes'', doc_userId = ''user_1''\<rparr>"

text \<open>A stored document with two occurrences of the placeholder text in its Markdown, and
  a transcript whose only caption is the placeholder text.\<close>

definition marked_document :: document where
  "marked_document =
     \<lparr>doc_id = ''doc_1'', doc_url = ''https://youtu.be/abc'', doc_title = ''A talk'',
      doc_siteName = ''A channel'',
      doc_markdown = Some ''Intro _Fetching transcript..._ and _Fetching transcript..._'',
      doc_userId = ''user_1''\<rparr>"

definition placeholder_caption :: "transcript_item list" where
  "placeholder_caption = [\<lparr>item_offset = 0, item_text = ''_Fetching transcript..._''\<rparr>]"

text \<open>The metadata of a video whose title is the placeholder text.\<close>

definition placeholder_titled :: metadata where
  "placeholder_titled =
     \<lparr>md_title = ''_Fetching transcript..._'', md_channel = ''A channel'', md_description = ''About''\<rparr>"

section \<open>Facts about the string operations\<close>

lemma js_includes_sublist: "js_includes s p = sublist p s"
  by (induction s) (auto simp: sublist_Cons_right)

text \<open>A character that does not occur in \<open>p\<close> separates the occurrences of \<open>p\<close>.\<close>

lemma prefix_sep:
  assumes "c \<notin> set p"
  shows "prefix p (xs @ c # ys) = prefix p xs"
proof
  assume "prefix p (xs @ c # ys)"
  then consider "prefix p xs" | us where "p = xs @ us" "prefix us (c # ys)"
    by (auto simp: prefix_append)
  then show "prefix p xs"
  proof cases
    case 1
    then show ?thesis .
  next
    case 2
    with assms show ?thesis by (cases us) auto
  qed
qed simp

lemma sublist_sep:
  assumes "c \<notin> set p"
  shows "sublist p (xs @ c # ys) = (sublist p xs \<or> sublist p ys)"
proof (induction xs)
  case Nil
  from prefix_sep [OF assms, of "[]" ys] show ?case
    by (auto simp: sublist_Cons_right)
next
  case (Cons x xs)
  from prefix_sep [OF assms, of "x # xs" ys] Cons show ?case
    by (auto simp: sublist_Cons_right)
qed

lemma sublist_snoc_last:
  assumes "p \<noteq> []" "last p \<noteq> c"
  shows "sublist p (xs @ [c]) = sublist p xs"
  using assms by (metis append_butlast_last_id snoc_sublist_snoc)

lemma sublist_Cons_hd:
  assumes "p \<noteq> []" "hd p \<noteq> c"
  shows "sublist p (c # ys) = sublist p ys"
  using assms by (metis list.sel(1) prefix_Cons sublist_Cons_right)

lemma replace_absent: "\<not> sublist p s \<Longrightarrow> replace s p r = s"
  by (induction s) (auto simp: sublist_Cons_right)

lemma replace_self: "p \<noteq> [] \<Longrightarrow> replace p p r = r"
  by (cases p) auto

lemma replace_before_sep:
  assumes "c \<notin> set p" "p \<noteq> []" "\<not> sublist p ys"
  shows "replace (xs @ c # ys) p r = replace xs p r @ c # ys"
proof (induction xs)
  case Nil
  from assms have "\<not> prefix p (c # ys)"
    using prefix_sep [of c p "[]" ys] by simp
  with assms show ?case by (simp add: replace_absent)
next
  case (Cons x xs)
  show ?case
  proof (cases "prefix p (x # xs)")
    case True
    then have len: "length p \<le> length (x # xs)" by (rule prefix_length_le)
    from True have pre: "prefix p ((x # xs) @ c # ys)" by (rule prefix_prefix)
    have "drop (length p) ((x # xs) @ c # ys) = drop (length p) (x # xs) @ c # ys"
      using len drop_append [of "length p" "x # xs" "c # ys"] by simp
    with True pre show ?thesis by simp
  next
    case False
    with assms(1) have "\<not> prefix p (x # xs @ c # ys)"
      using prefix_sep [of c p "x # xs" ys] by simp
    with False Cons show ?thesis by simp
  qed
qed

lemma replace_at_end:
  assumes "c \<notin> set p" "p \<noteq> []" "\<not> sublist p xs"
  shows "replace (xs @ c # p) p r = xs @ c # r"
  using assms
proof (induction xs)
  case Nil
  from Nil have "\<not> prefix p (c # p)"
    using prefix_sep [of c p "[]" p] by simp
  with Nil show ?case by (simp add: replace_self)
next
  case (Cons x xs)
  from Cons.prems have "\<not> prefix p (x # xs @ c # p)"
    using prefix_sep [of c p "x # xs" p] by (auto simp: sublist_Cons_right)
  moreover from Cons.prems have "\<not> sublist p xs" by (auto simp: sublist_Cons_right)
  ultimately show ?case using Cons by simp
qed

lemma length_replace:
  "length (replace s p []) = length s \<or> length (replace s p []) + length p = length s"
proof (induction s)
  case Nil
  then show ?case by simp
next
  case (Cons c cs)
  show ?case
  proof (cases "prefix p (c # cs)")
    case True
    then have "length p \<le> length (c # cs)" by (rule prefix_length_le)
    with True show ?thesis by simp
  next
    case False
    with Cons show ?thesis by auto
  qed
qed

section \<open>Link extraction: cap and uniqueness\<close>

lemma links_loop_invariant:
  assumes "length links \<le> 100" and "distinct (map link_href links)"
    and "link_href ` set links \<subseteq> seenHrefs"
  shows "length (links_loop R baseUrl els links seenHrefs) \<le> 100
       \<and> distinct (map link_href (links_loop R baseUrl els links seenHrefs))"
  using assms
proof (induction els arbitrary: links seenHrefs)
  case Nil
  then show ?case by simp
next
  case (Cons el els)
  show ?case
  proof (cases "length links \<ge> 100")
    case True
    with Cons.prems show ?thesis by simp
  next
    case False
    then have len: "length links < 100" by simp
    show ?thesis
    proof (cases "el_href el = []")
      case True
      with False Cons show ?thesis by simp
    next
      case nonempty: False
      show ?thesis
      proof (cases "R (el_href el) baseUrl")
        case (Inl e)
        with False nonempty Cons show ?thesis by simp
      next
        case (Inr a)
        show ?thesis
        proof (cases "startsWith a ''#'' \<or> a \<in> seenHrefs")
          case True
          with False nonempty Inr Cons show ?thesis by auto
        next
          case fresh: False
          then have notin: "a \<notin> link_href ` set links"
            using Cons.prems(3) by auto
          let ?l = "\<lparr>link_text = trim (el_textContent el), link_href = a\<rparr>"
          have pushed: "length (links_loop R baseUrl els (links @ [?l]) (insert a seenHrefs)) \<le> 100
            \<and> distinct (map link_href (links_loop R baseUrl els (links @ [?l]) (insert a seenHrefs)))"
            using len Cons.prems notin by (intro Cons.IH) auto
          have skipped: "length (links_loop R baseUrl els links (insert a seenHrefs)) \<le> 100
            \<and> distinct (map link_href (links_loop R baseUrl els links (insert a seenHrefs)))"
            using Cons.prems by (intro Cons.IH) auto
          from False nonempty Inr fresh pushed skipped show ?thesis
            by (simp add: Let_def)
        qed
      qed
    qed
  qed
qed

lemma links_loop_order:
  "\<exists>ls. links_loop R baseUrl els links seenHrefs = links @ ls
        \<and> subseq (map link_href ls)
             (map (\<lambda>el. projr (R (el_href el) baseUrl))
                (filter (\<lambda>el. \<not> isl (R (el_href el) baseUrl)) els))"
proof (induction els arbitrary: links seenHrefs)
  case Nil
  show ?case by simp
next
  case (Cons el els)
  let ?resolved = "map (\<lambda>el. projr (R (el_href el) baseUrl))
                (filter (\<lambda>el. \<not> isl (R (el_href el) baseUrl)) els)"
  have skip: "\<exists>ls. links_loop R baseUrl els links seen = links @ ls
        \<and> subseq (map link_href ls)
             (map (\<lambda>el. projr (R (el_href el) baseUrl))
                (filter (\<lambda>el. \<not> isl (R (el_href el) baseUrl)) (el # els)))" for seen
    using Cons.IH [of links seen] by (auto intro: subseq_Cons')
  show ?case
  proof (cases "R (el_href el) baseUrl")
    case (Inl e)
    with skip [of seenHrefs] show ?thesis by (auto simp: Let_def)
  next
    case (Inr a)
    let ?l = "\<lparr>link_text = trim (el_textContent el), link_href = a\<rparr>"
    obtain ls where ls: "links_loop R baseUrl els (links @ [?l]) (insert a seenHrefs) = (links @ [?l]) @ ls"
      "subseq (map link_href ls) ?resolved"
      using Cons.IH [of "links @ [?l]" "insert a seenHrefs"] by blast
    then have push: "\<exists>ls'. links_loop R baseUrl els (links @ [?l]) (insert a seenHrefs) = links @ ls'
        \<and> subseq (map link_href ls')
             (map (\<lambda>el. projr (R (el_href el) baseUrl))
                (filter (\<lambda>el. \<not> isl (R (el_href el) baseUrl)) (el # els)))"
      using Inr by (intro exI [of _ "?l # ls"]) simp
    from Inr skip [of seenHrefs] skip [of "insert a seenHrefs"] push show ?thesis
      by (auto simp: Let_def)
  qed
qed

text \<open>
  C2. For every list of anchor elements and every base URL, \<^verbatim>\<open>extractLinks\<close> returns at
  most 100 entries, no two of them have the same resolved absolute URL, and their URLs
  are in document order: they are a subsequence of the resolved URLs of the anchors.
\<close>

theorem extractLinks_capped_distinct:
  "length (extractLinks R anchorElements baseUrl) \<le> 100
   \<and> distinct (map link_href (extractLinks R anchorElements baseUrl))
   \<and> subseq (map link_href (extractLinks R anchorElements baseUrl))
        (map (\<lambda>el. projr (R (el_href el) baseUrl))
           (filter (\<lambda>el. \<not> isl (R (el_href el) baseUrl)) anchorElements))"
proof -
  have "length (links_loop R baseUrl anchorElements [] {}) \<le> 100
      \<and> distinct (map link_href (links_loop R baseUrl anchorElements [] {}))"
    by (rule links_loop_invariant) simp_all
  moreover have "subseq (map link_href (links_loop R baseUrl anchorElements [] {}))
        (map (\<lambda>el. projr (R (el_href el) baseUrl))
           (filter (\<lambda>el. \<not> isl (R (el_href el) baseUrl)) anchorElements))"
    using links_loop_order [of R baseUrl anchorElements "[]" "{}"] by auto
  ultimately show ?thesis
    by (simp add: extractLinks_def)
qed

text \<open>
  C3 (the code departs from it). The test for internal anchors looks at the resolved URL,
  which the resolver has already made absolute, and not at the \<^verbatim>\<open>href\<close> attribute:
  an anchor whose \<^verbatim>\<open>href\<close> is a fragment only is resolved against the base URL and
  kept. The resolver here appends the fragment to the base URL, as the URL parser does
  for this base.
\<close>

theorem extractLinks_keeps_fragment_href:
  "extractLinks (\<lambda>href baseUrl. Inr (baseUrl @ href))
     [\<lparr>el_href = ''#section'', el_textContent = ''Jump''\<rparr>] ''https://example.com/page''
   = [\<lparr>link_text = ''Jump'', link_href = ''https://example.com/page#section''\<rparr>]"
  by (simp add: extractLinks_def startsWith_def trim_def js_whitespace_def)

section \<open>Markdown image rule\<close>

text \<open>
  C8. The image rule gives no output for a node whose \<^verbatim>\<open>src\<close> is absent or empty; for a
  non-empty \<^verbatim>\<open>src\<close> it gives \<^verbatim>\<open>![alt](src)\<close>, which is \<^verbatim>\<open>![](src)\<close> when \<^verbatim>\<open>alt\<close>
  is absent or empty.
\<close>

theorem img_rule_output:
  "(node_src node = None \<or> node_src node = Some [] \<longrightarrow> img_replacement node = [])
   \<and> (\<forall>src. node_src node = Some src \<and> src \<noteq> [] \<longrightarrow>
          img_replacement node = ''!['' @ or_empty (node_alt node) @ '']('' @ src @ '')''
          \<and> (node_alt node = None \<or> node_alt node = Some [] \<longrightarrow>
                img_replacement node = ''![]('' @ src @ '')''))"
  by (auto simp: img_replacement_def or_empty_def)

theorem img_rule_output_witness:
  "img_replacement \<lparr>node_alt = Some ''logo'', node_src = Some []\<rparr> = []
   \<and> img_replacement \<lparr>node_alt = Some ''logo'', node_src = Some ''/a.png''\<rparr> = ''![logo](/a.png)''
   \<and> img_replacement \<lparr>node_alt = None, node_src = Some ''/a.png''\<rparr> = ''![](/a.png)''"
  using img_rule_output [of "\<lparr>node_alt = Some ''logo'', node_src = Some []\<rparr>"]
    img_rule_output [of "\<lparr>node_alt = Some ''logo'', node_src = Some ''/a.png''\<rparr>"]
    img_rule_output [of "\<lparr>node_alt = None, node_src = Some ''/a.png''\<rparr>"]
  by (simp add: or_empty_def)

section \<open>Transcript timestamps\<close>

lemma minutes_of_div: "minutes_of offset = offset div 1000 div 60"
proof -
  have "real offset / 1000 / 60 = real offset / real 60000" by simp
  then have "\<lfloor>real offset / 1000 / 60\<rfloor> = int (offset div 60000)"
    by (simp only: floor_divide_of_nat_eq)
  then show ?thesis
    by (simp add: minutes_of_def div_mult2_eq)
qed

lemma seconds_value: "nat \<lfloor>js_rem (real offset / 1000) 60\<rfloor> = offset div 1000 mod 60"
proof -
  have "real offset / 1000 / 60 = real offset / real 60000" by simp
  then have "\<lfloor>real offset / 1000 / 60\<rfloor> = int (offset div 60000)"
    by (simp only: floor_divide_of_nat_eq)
  moreover have "real offset / 1000 / 60 \<ge> 0" by simp
  ultimately have q: "js_trunc (real offset / 1000 / 60) = int (offset div 60000)"
    by (simp only: js_trunc_def if_True)
  have "real offset / 1000 = real offset / real 1000" by simp
  then have f: "\<lfloor>real offset / 1000\<rfloor> = int (offset div 1000)"
    by (simp only: floor_divide_of_nat_eq)
  have "js_rem (real offset / 1000) 60
        = real offset / 1000 - 60 * of_int (js_trunc (real offset / 1000 / 60))"
    by (simp only: js_rem_def)
  also have "\<dots> = real offset / 1000 - 60 * of_int (int (offset div 60000))"
    by (simp only: q)
  also have "\<dots> = real offset / 1000 - of_int (60 * int (offset div 60000))"
    by simp
  finally have "\<lfloor>js_rem (real offset / 1000) 60\<rfloor>
        = \<lfloor>real offset / 1000\<rfloor> - 60 * int (offset div 60000)"
    by (simp only: floor_diff_of_int)
  also have "\<dots> = int (offset div 1000) - 60 * int (offset div 1000 div 60)"
    by (simp add: f div_mult2_eq)
  also have "\<dots> = int (offset div 1000 mod 60)"
    by (simp add: zmod_int zdiv_int minus_mult_div_eq_mod)
  finally show ?thesis by simp
qed

lemma seconds_of_eq: "seconds_of offset = padStart0 (nat_toString (offset div 1000 mod 60)) 2"
  by (simp only: seconds_of_def seconds_value)

lemma nat_toString_digit: "n < 10 \<Longrightarrow> nat_toString n = [digit_char n]"
  by (simp add: nat_toString.simps)

lemma nat_toString_two_digits:
  "10 \<le> n \<Longrightarrow> n < 100 \<Longrightarrow> nat_toString n = [digit_char (n div 10), digit_char (n mod 10)]"
  by (subst nat_toString.simps) (simp add: nat_toString_digit)

lemma length_seconds_of: "length (seconds_of offset) = 2"
proof -
  let ?s = "offset div 1000 mod 60"
  have "?s < 60" by simp
  show ?thesis
  proof (cases "?s < 10")
    case True
    then show ?thesis
      by (simp add: seconds_of_eq padStart0_def nat_toString_digit)
  next
    case False
    then show ?thesis
      by (simp add: seconds_of_eq padStart0_def nat_toString_two_digits)
  qed
qed

text \<open>
  C9. The minutes of a rendered timestamp are the offset divided by 1000 and by 60 with
  integer division, the seconds are the offset divided by 1000 modulo 60, padded with a
  zero to two digits; a line is \<^verbatim>\<open>**M:SS** - text\<close> followed by an empty line. An
  offset of 125000 ms renders as \<^verbatim>\<open>2:05\<close>, one of 3000 ms as \<^verbatim>\<open>0:03\<close>.
\<close>

theorem transcript_timestamp:
  "minutes_of offset = offset div 1000 div 60
   \<and> seconds_of offset = padStart0 (nat_toString (offset div 1000 mod 60)) 2
   \<and> length (seconds_of offset) = 2
   \<and> transcript_line \<lparr>item_offset = offset, item_text = caption\<rparr>
       = ''**'' @ nat_toString (offset div 1000 div 60) @ '':'' @ seconds_of offset
           @ ''** - '' @ caption @ nl @ nl
   \<and> nat_toString (minutes_of 125000) @ '':'' @ seconds_of 125000 = ''2:05''
   \<and> nat_toString (minutes_of 3000) @ '':'' @ seconds_of 3000 = ''0:03''"
proof -
  have "nat_toString (minutes_of 125000) @ '':'' @ seconds_of 125000 = ''2:05''"
    by (simp add: minutes_of_div seconds_of_eq padStart0_def digit_char_def nat_toString_digit)
  moreover have "nat_toString (minutes_of 3000) @ '':'' @ seconds_of 3000 = ''0:03''"
    by (simp add: minutes_of_div seconds_of_eq padStart0_def digit_char_def nat_toString_digit)
  moreover have "transcript_line \<lparr>item_offset = offset, item_text = caption\<rparr>
       = ''**'' @ nat_toString (offset div 1000 div 60) @ '':'' @ seconds_of offset
           @ ''** - '' @ caption @ nl @ nl"
    by (simp add: transcript_line_def minutes_of_div nl_def)
  ultimately show ?thesis
    using minutes_of_div seconds_of_eq length_seconds_of by blast
qed

section \<open>Unresolvable attributes are skipped\<close>

lemma links_loop_full:
  "length links \<ge> 100 \<Longrightarrow> links_loop R baseUrl els links seenHrefs = links"
  by (cases els) simp_all

lemma links_loop_skips_unresolvable:
  "links_loop R baseUrl els links seenHrefs
   = links_loop R baseUrl (filter (\<lambda>el. \<not> isl (R (el_href el) baseUrl)) els) links seenHrefs"
proof (induction els arbitrary: links seenHrefs)
  case Nil
  show ?case by simp
next
  case (Cons el els)
  show ?case
  proof (cases "R (el_href el) baseUrl")
    case (Inl e)
    have "links_loop R baseUrl (el # els) links seenHrefs = links_loop R baseUrl els links seenHrefs"
      using Inl by (simp add: links_loop_full Let_def)
    with Inl Cons.IH show ?thesis by simp
  next
    case (Inr a)
    with Cons.IH show ?thesis by (simp add: Let_def)
  qed
qed

lemma images_loop_resolvable:
  "images_loop R baseUrl els images
   = images @ map (\<lambda>el. \<lparr>image_src = projr (R (el_src el) baseUrl), image_alt = or_empty (el_alt el)\<rparr>)
       (filter (\<lambda>el. el_src el \<noteq> [] \<and> \<not> isl (R (el_src el) baseUrl)) els)"
proof (induction els arbitrary: images)
  case Nil
  show ?case by simp
next
  case (Cons el els)
  show ?case
    by (cases "R (el_src el) baseUrl") (simp_all add: Cons.IH Let_def)
qed

lemma first_with_href_Nil: "first_with_href seen [] = []"
  by (simp add: first_with_href_def)

lemma first_with_href_Cons:
  "first_with_href seen (c # cs)
   = (if link_href c \<in> seen then first_with_href seen cs
      else c # first_with_href (insert (link_href c) seen) cs)"
proof -
  have upt: "[0..<length (c # cs)] = 0 # map Suc [0..<length cs]"
    using upt_conv_Cons [of 0 "Suc (length cs)"] map_Suc_upt [of 0 "length cs"] by simp
  have rest: "map (\<lambda>i. (c # cs) ! i)
        (filter (\<lambda>i. link_href ((c # cs) ! i) \<notin> seen \<union> link_href ` set (take i (c # cs)))
           (map Suc [0..<length cs]))
      = first_with_href (insert (link_href c) seen) cs"
    by (simp add: first_with_href_def filter_map comp_def conj_commute conj_left_commute cong: conj_cong)
  show ?thesis
  proof (cases "link_href c \<in> seen")
    case True
    then have "insert (link_href c) seen = seen" by auto
    with rest True show ?thesis
      unfolding first_with_href_def [of seen "c # cs"] upt by simp
  next
    case False
    with rest show ?thesis
      unfolding first_with_href_def [of seen "c # cs"] upt by simp
  qed
qed

lemma links_loop_exact:
  "links_loop R baseUrl els links seenHrefs
   = links @ take (100 - length links)
       (filter (\<lambda>l. link_text l \<noteq> [] \<and> link_href l \<noteq> [])
          (first_with_href seenHrefs (List.map_filter (link_candidate R baseUrl) els)))"
proof (induction els arbitrary: links seenHrefs)
  case Nil
  show ?case by (simp add: first_with_href_Nil)
next
  case (Cons el els)
  show ?case
  proof (cases "length links \<ge> 100")
    case True
    then show ?thesis by simp
  next
    case False
    then have take: "take (100 - length links) (x # xs) = x # take (100 - length (links @ [x])) xs" for x :: link and xs
      by (simp add: take_Cons')
    show ?thesis
    proof (cases "link_candidate R baseUrl el")
      case None
      then have "links_loop R baseUrl (el # els) links seenHrefs
                 = links_loop R baseUrl els links seenHrefs"
        using False by (auto simp: link_candidate_def Let_def split: if_splits sum.splits)
      with None show ?thesis
        by (simp add: Cons.IH)
    next
      case (Some c)
      then obtain a where a: "el_href el \<noteq> []" "R (el_href el) baseUrl = Inr a"
        "\<not> startsWith a ''#''" "c = \<lparr>link_text = trim (el_textContent el), link_href = a\<rparr>"
        by (auto simp: link_candidate_def split: if_splits sum.splits)
      show ?thesis
        using False a Some take
        by (simp add: Cons.IH first_with_href_Cons Let_def)
    qed
  qed
qed

text \<open>
  C6, as stated, fails for links: not every resolvable anchor that remains is returned.
  After an anchor whose \<^verbatim>\<open>href\<close> does not resolve, the anchor \<^verbatim>\<open>First\<close> is returned,
  but the resolvable anchor \<^verbatim>\<open>Again\<close> (the URL of \<^verbatim>\<open>First\<close>) and the resolvable
  anchor with a blank text are not.
\<close>

theorem extractLinks_drops_resolvable:
  "extractLinks
     (\<lambda>href baseUrl. if href = ''http://['' then Inl (TypeError ''Invalid URL'')
                      else Inr (baseUrl @ href))
     [\<lparr>el_href = ''http://['', el_textContent = ''Broken''\<rparr>,
      \<lparr>el_href = ''/a'', el_textContent = ''First''\<rparr>,
      \<lparr>el_href = ''/a'', el_textContent = ''Again''\<rparr>,
      \<lparr>el_href = ''/b'', el_textContent = '' ''\<rparr>]
     ''https://example.com''
   = [\<lparr>link_text = ''First'', link_href = ''https://example.com/a''\<rparr>]"
  by (simp add: extractLinks_def startsWith_def trim_def js_whitespace_def)

text \<open>
  C6, amended. The extractors are total: for every resolver, also one that throws for some
  or all of its inputs, they return a list, because the exception of the URL constructor is
  consumed by the \<^verbatim>\<open>catch\<close> branch. An anchor whose \<^verbatim>\<open>href\<close> does not resolve is
  skipped and has no effect on the links returned. The links returned are, in document
  order and up to the cap of 100, exactly the candidates with a non-empty text whose URL is
  not the URL of an earlier candidate; the images returned are exactly those of the
  elements with a non-empty, resolvable \<^verbatim>\<open>src\<close>, in document order.
\<close>

theorem extraction_returns_resolvable:
  "extractLinks R anchorElements baseUrl
     = take 100
         (filter (\<lambda>l. link_text l \<noteq> [] \<and> link_href l \<noteq> [])
            (first_with_href {} (List.map_filter (link_candidate R baseUrl) anchorElements)))
   \<and> extractLinks R anchorElements baseUrl
     = extractLinks R (filter (\<lambda>el. \<not> isl (R (el_href el) baseUrl)) anchorElements) baseUrl
   \<and> extractImages R imgElements baseUrl
     = map (\<lambda>el. \<lparr>image_src = projr (R (el_src el) baseUrl), image_alt = or_empty (el_alt el)\<rparr>)
         (filter (\<lambda>el. el_src el \<noteq> [] \<and> \<not> isl (R (el_src el) baseUrl)) imgElements)"
  unfolding extractLinks_def extractImages_def
  using links_loop_exact [of R baseUrl anchorElements "[]" "{}"]
    links_loop_skips_unresolvable [of R baseUrl anchorElements "[]" "{}"]
    images_loop_resolvable [of R baseUrl imgElements "[]"]
  by simp

section \<open>Wikipedia infobox\<close>

lemma infobox_loop_fold:
  "infobox_loop rows d
   = foldl (\<lambda>d row. record_assign d (row_key row) (row_value row)) d (filter row_complete rows)"
proof (induction rows arbitrary: d)
  case Nil
  show ?case by simp
next
  case (Cons row rows)
  show ?case
    by (cases "row_th row"; cases "row_td row")
      (simp_all add: Cons.IH row_complete_def row_key_def row_value_def or_empty_def Let_def)
qed

lemma map_of_record_update: "map_of (record_update k v obj) = (map_of obj)(k \<mapsto> v)"
  by (induction obj) auto

lemma map_of_infobox_fold:
  assumes "k \<noteq> ''__proto__''"
  shows "map_of (foldl (\<lambda>d row. record_assign d (row_key row) (row_value row)) d rows) k
   = (map_of d ++ map_of (rev (map (\<lambda>row. (row_key row, row_value row)) rows))) k"
proof (induction rows arbitrary: d)
  case Nil
  show ?case by simp
next
  case (Cons row rows)
  let ?f = "\<lambda>d row. record_assign d (row_key row) (row_value row)"
  let ?M = "map_of (rev (map (\<lambda>row. (row_key row, row_value row)) rows))"
  have "map_of (foldl ?f d (row # rows)) k = map_of (foldl ?f (?f d row) rows) k"
    by simp
  also have "\<dots> = (map_of (?f d row) ++ ?M) k"
    by (rule Cons.IH)
  also have "\<dots> = (map_of d ++ map_of (rev (map (\<lambda>row. (row_key row, row_value row)) (row # rows)))) k"
    using assms
    by (auto simp: record_assign_def map_of_record_update map_add_def split: option.splits)
  finally show ?case .
qed

text \<open>What the loop does, for every table: it performs the assignment for the complete
  rows, in order, and nothing for any other row. A key other than \<^verbatim>\<open>__proto__\<close> is
  bound iff a complete row has it, to the value of the last such row.\<close>

lemma infobox_complete_rows:
  "infobox_loop rows []
     = foldl (\<lambda>d row. record_assign d (row_key row) (row_value row)) [] (filter row_complete rows)
   \<and> (k \<noteq> ''__proto__'' \<longrightarrow>
        map_of (infobox_loop rows []) k
          = map_of (rev (map (\<lambda>row. (row_key row, row_value row)) (filter row_complete rows))) k)
   \<and> (wd_infobox doc = Some rows \<longrightarrow>
        infobox (extractWikipediaData doc)
          = (if infobox_loop rows [] = [] then None else Some (infobox_loop rows [])))"
proof -
  have "wd_infobox doc = Some rows \<longrightarrow>
        infobox (extractWikipediaData doc)
          = (if infobox_loop rows [] = [] then None else Some (infobox_loop rows []))"
    by (simp add: extractWikipediaData_def Let_def)
  moreover have "k \<noteq> ''__proto__'' \<longrightarrow>
        map_of (infobox_loop rows []) k
          = map_of (rev (map (\<lambda>row. (row_key row, row_value row)) (filter row_complete rows))) k"
    by (simp add: infobox_loop_fold map_of_infobox_fold)
  ultimately show ?thesis
    using infobox_loop_fold [of rows "[]"] by blast
qed

lemmas key_order_simps =
  enumerated_before_def is_array_index_def is_digit_def parse_nat_def record_assign_def

text \<open>The table of five rows, three of them with an empty value, yields its two complete
  rows.\<close>

lemma infobox_five_rows:
  "infobox_loop five_rows [] = [(''Born'', ''1 May 1900''), (''Occupation'', ''Engineer'')]"
  by (simp add: five_rows_def trim_def js_whitespace_def key_order_simps)

text \<open>Keys that are array indices are enumerated first, in ascending order.\<close>

lemma infobox_index_keys_first:
  "infobox_loop
     [\<lparr>row_th = Some ''Name'', row_td = Some ''Ada''\<rparr>,
      \<lparr>row_th = Some ''2020'', row_td = Some ''Prize''\<rparr>,
      \<lparr>row_th = Some ''1999'', row_td = Some ''Degree''\<rparr>] []
   = [(''1999'', ''Degree''), (''2020'', ''Prize''), (''Name'', ''Ada'')]"
  by (simp add: trim_def js_whitespace_def key_order_simps)

text \<open>
  C7 (the code departs from it). A row whose header cell reads \<^verbatim>\<open>__proto__\<close> and whose
  data cell is not empty is complete, yet it contributes no pair: the assignment on the
  object literal does not create the key. An infobox with this row alone gives no infobox
  at all, and next to a complete row \<^verbatim>\<open>Born\<close> only that row is in the map.
\<close>

theorem infobox_drops_proto_row:
  "row_complete \<lparr>row_th = Some ''__proto__'', row_td = Some ''Object''\<rparr>
   \<and> infobox (extractWikipediaData
        \<lparr>wd_infobox = Some [\<lparr>row_th = Some ''__proto__'', row_td = Some ''Object''\<rparr>],
         wd_categoryLinks = [], wd_refList = []\<rparr>) = None
   \<and> infobox_loop
        [\<lparr>row_th = Some ''Born'', row_td = Some ''1 May 1900''\<rparr>,
         \<lparr>row_th = Some ''__proto__'', row_td = Some ''Object''\<rparr>] []
       = [(''Born'', ''1 May 1900'')]"
  by (simp add: extractWikipediaData_def row_complete_def row_key_def row_value_def or_empty_def
      trim_def js_whitespace_def record_assign_def)

section \<open>Failed extraction persists nothing\<close>

lemma user_sync_documents: "st_documents (user_sync E st u) = st_documents st"
  by (simp add: user_sync_def db_upsert_user_def split: list.splits option.splits)

lemma save_document_not_Failure: "fst (save_document E st u url pg) \<noteq> Failure c msg"
  by (simp add: save_document_def split: sum.splits prod.splits)

lemma processor_POST_saving_failure_keeps_documents:
  assumes "fst (processor_POST_saving E st text) = Failure c msg"
  shows "st_documents (snd (processor_POST_saving E st text)) = st_documents st"
  using assms
  by (auto simp: processor_POST_saving_def Let_def user_sync_documents save_document_not_Failure
      split: option.splits sum.splits bool.splits if_splits)

text \<open>
  C5. When the page of a request was fetched and the article extractor returns no article,
  or one without content, the handler answers 422 and the documents table is as it was:
  the error is returned before the \<^verbatim>\<open>create\<close> call. (The user row may have been
  written by the user sync.)
\<close>

theorem unreadable_page_not_persisted:
  assumes "currentUser E = Some u"
    and "limit_reached E st u = Inr False"
    and "parse_body E text = Inr b" and "body_url b = Some url" and "url \<noteq> []"
    and "\<not> isYoutubeUrl url"
    and "fetch_page E url = Inr html"
    and "case dom_article (JSDOM E (sanitize E html) url) of
           None \<Rightarrow> True
         | Some article \<Rightarrow> art_content article = None \<or> art_content article = Some []"
  shows "fst (processor_POST_saving E st text) = Failure 422 ''Readability could not parse content''
       \<and> st_documents (snd (processor_POST_saving E st text)) = st_documents st"
proof -
  have "scraper_mode E url = Inl (Error ''Readability could not parse content'')"
    using assms(7,8)
    by (auto simp: scraper_mode_def article_page_def or_empty_def split: option.splits)
  then have "processor_POST_saving E st text
             = (Failure 422 ''Readability could not parse content'', user_sync E st u)"
    using assms(1-6)
    by (simp add: processor_POST_saving_def scrape_failure_def str_or_def)
  then show ?thesis by (simp add: user_sync_documents)
qed

theorem unreadable_page_not_persisted_witness:
  "fst (processor_POST_saving (demo_env None TimedOut) empty_store ''https://example.com/a'')
     = Failure 422 ''Readability could not parse content''
   \<and> st_documents (snd (processor_POST_saving (demo_env None TimedOut) empty_store
        ''https://example.com/a'')) = []"
  using unreadable_page_not_persisted [of "demo_env None TimedOut" demo_user empty_store
      "''https://example.com/a''" "\<lparr>body_docId = Some ''doc_1'', body_url = Some ''https://example.com/a''\<rparr>"
      "''https://example.com/a''" "''<html></html>''"]
  by (simp add: demo_env_def demo_user_def empty_store_def limit_reached_def db_count_def
      parse_body_def isYoutubeUrl_def fetch_page_def js_fetch_def startsWith_def)

section \<open>URL validation\<close>

text \<open>
  C4 (the code departs from it). For a request whose \<^verbatim>\<open>url\<close> is a non-empty string that
  does not parse as an absolute URL (and does not contain a YouTube host name), the
  processor route has no validation step: it goes on to \<^verbatim>\<open>fetch\<close>, whose exception is
  reported with status 422 and the message of that exception. The process route validates with \<^verbatim>\<open>new URL(url)\<close> and
  answers 400.
\<close>

theorem unparsable_url_not_rejected:
  assumes "parse_body E text = Inr b" and "JSON_parse E text = Inr b"
    and "body_url b = Some url" and "url \<noteq> []" and "\<not> isYoutubeUrl url"
    and "URL_hostname E url = Inl e"
  shows "processor_POST E text = Failure 422 (''Failed to parse URL from '' @ url)
       \<and> process_POST E text = Failure 400 ''Invalid URL format''"
  using assms
  by (simp add: processor_POST_def scraper_mode_enhanced_def fetch_page_def js_fetch_def
      scrape_failure_def process_POST_def or_empty_def str_or_def)

theorem unparsable_url_not_rejected_witness:
  "processor_POST (demo_env None TimedOut) ''not a url''
     = Failure 422 ''Failed to parse URL from not a url''
   \<and> process_POST (demo_env None TimedOut) ''not a url'' = Failure 400 ''Invalid URL format''"
  using unparsable_url_not_rejected [of "demo_env None TimedOut" "''not a url''"
      "\<lparr>body_docId = Some ''doc_1'', body_url = Some ''not a url''\<rparr>" "''not a url''"
      "TypeError ''Invalid URL''"]
  by (simp add: demo_env_def parse_body_def isYoutubeUrl_def startsWith_def)

section \<open>The placeholder and the Markdown of a video\<close>

lemma placeholder_Nil: "placeholder \<noteq> []"
  by (simp add: placeholder_def)

lemma placeholder_Cons:
  "c \<noteq> CHR ''_'' \<Longrightarrow> sublist placeholder (c # ys) = sublist placeholder ys"
  by (rule sublist_Cons_hd) (simp_all add: placeholder_def)

lemma placeholder_sep:
  "c \<notin> set ''_Fetching transcript..._''
   \<Longrightarrow> sublist placeholder (xs @ c # ys) = (sublist placeholder xs \<or> sublist placeholder ys)"
  unfolding placeholder_def by (rule sublist_sep)

lemma placeholder_sep2:
  assumes "c \<noteq> CHR ''_''" "d \<notin> set ''_Fetching transcript..._''"
  shows "sublist placeholder (xs @ c # d # ys) = (sublist placeholder xs \<or> sublist placeholder ys)"
proof -
  have "sublist placeholder ((xs @ [c]) @ d # ys)
        = (sublist placeholder (xs @ [c]) \<or> sublist placeholder ys)"
    using assms(2) by (rule placeholder_sep)
  moreover have "sublist placeholder (xs @ [c]) = sublist placeholder xs"
    using assms(1) by (intro sublist_snoc_last) (simp_all add: placeholder_def)
  ultimately show ?thesis by simp
qed

lemmas placeholder_free = placeholder_Cons placeholder_sep placeholder_sep2 placeholder_Nil

lemma youtube_markdown_header:
  "youtube_markdown title siteName description url
   = youtube_header title siteName description url @ nl @ placeholder"
  by (simp add: youtube_markdown_def youtube_header_def)

lemma youtube_header_free:
  assumes "\<not> sublist placeholder title" "\<not> sublist placeholder siteName"
    "\<not> sublist placeholder description" "\<not> sublist placeholder url"
  shows "\<not> sublist placeholder (youtube_header title siteName description url)"
  using assms by (simp add: youtube_header_def nl_def placeholder_free)

section \<open>The transcript continuation\<close>

lemma foldl_append_concat: "foldl (\<lambda>md x. md @ f x) a xs = a @ concat (map f xs)"
  by (induction xs arbitrary: a) simp_all

lemma build_transcriptMarkdown_Some:
  "build_transcriptMarkdown (Some items) = transcript_heading @ concat (map transcript_line items)"
  by (simp add: build_transcriptMarkdown_def foldl_append_concat)

lemma build_transcriptMarkdown_None: "build_transcriptMarkdown None = transcript_error_note"
  by (simp add: build_transcriptMarkdown_def)

lemma length_transcript_line: "length (transcript_line item) \<ge> 13"
proof -
  have "length (nat_toString (minutes_of (item_offset item))) \<ge> 1"
    by (subst nat_toString.simps) simp
  then show ?thesis
    by (simp add: transcript_line_def length_seconds_of)
qed

lemma length_build_transcriptMarkdown:
  "length (build_transcriptMarkdown t) = 17 \<or> length (build_transcriptMarkdown t) \<ge> 30"
proof (cases t)
  case None
  then show ?thesis
    by (simp add: build_transcriptMarkdown_None transcript_error_note_def)
next
  case (Some items)
  show ?thesis
  proof (cases items)
    case Nil
    with Some show ?thesis
      by (simp add: build_transcriptMarkdown_Some transcript_heading_def)
  next
    case (Cons item rest)
    with Some length_transcript_line [of item] show ?thesis
      by (simp add: build_transcriptMarkdown_Some transcript_heading_def)
  qed
qed

lemma update_markdown_not_idempotent:
  "update_markdown (update_markdown md (build_transcriptMarkdown t)) (build_transcriptMarkdown t')
   \<noteq> update_markdown md (build_transcriptMarkdown t)"
proof -
  let ?once = "update_markdown md (build_transcriptMarkdown t)"
  let ?block = "build_transcriptMarkdown t'"
  have "length (update_markdown ?once ?block) \<noteq> length ?once"
    using length_replace [of ?once "''_Fetching transcript..._''"]
      length_build_transcriptMarkdown [of t']
    by (auto simp: update_markdown_def)
  then show ?thesis by auto
qed

lemma build_transcriptMarkdown_Cons:
  "\<exists>rest. build_transcriptMarkdown t = CHR 0x0A # rest"
  by (cases t) (simp_all add: build_transcriptMarkdown_Some build_transcriptMarkdown_None
      transcript_heading_def transcript_error_note_def)

lemma update_markdown_twice:
  assumes "\<not> js_includes (build_transcriptMarkdown t) placeholder"
  shows "update_markdown (update_markdown md (build_transcriptMarkdown t)) block
         = replace (replace md placeholder []) placeholder [] @ build_transcriptMarkdown t @ block"
proof -
  obtain rest where rest: "build_transcriptMarkdown t = CHR 0x0A # rest"
    using build_transcriptMarkdown_Cons by blast
  with assms have "\<not> sublist placeholder rest"
    by (simp add: js_includes_sublist sublist_Cons_right)
  then have "replace (replace md placeholder [] @ CHR 0x0A # rest) placeholder []
             = replace (replace md placeholder []) placeholder [] @ CHR 0x0A # rest"
    by (intro replace_before_sep) (simp_all add: placeholder_def)
  with rest show ?thesis
    by (simp add: update_markdown_def placeholder_def)
qed

lemma update_markdown_absent:
  "\<not> js_includes md placeholder \<Longrightarrow> update_markdown md block = md @ block"
  by (simp add: update_markdown_def placeholder_def js_includes_sublist replace_absent)

lemma find_map_update:
  "find (\<lambda>d. doc_id d = i) (map (\<lambda>d. if doc_id d = i then d\<lparr>doc_markdown := m\<rparr> else d) docs)
   = map_option (\<lambda>d. d\<lparr>doc_markdown := m\<rparr>) (find (\<lambda>d. doc_id d = i) docs)"
  by (induction docs) simp_all

lemma transcript_POST_saving_ok:
  assumes "currentUser E = Some u" and "JSON_parse E text = Inr b"
    and "body_docId b = Some docId" and "docId \<noteq> []"
    and "body_url b = Some url" and "url \<noteq> []"
    and "db_error E FindUnique = None" and "db_error E Update = None"
    and "find (\<lambda>d. doc_id d = docId) (st_documents st) = Some doc"
    and "doc_userId doc = user_id u"
  shows "transcript_POST_saving E st text =
    (Ok (Some (update_markdown (or_empty (doc_markdown doc))
                 (build_transcriptMarkdown (fetchTranscriptWithTimeout E url)))),
     st\<lparr>st_documents :=
          map (\<lambda>d. if doc_id d = docId
                    then d\<lparr>doc_markdown := Some (update_markdown (or_empty (doc_markdown doc))
                             (build_transcriptMarkdown (fetchTranscriptWithTimeout E url)))\<rparr>
                    else d) (st_documents st)\<rparr>)"
  using assms
  by (simp add: transcript_POST_saving_def db_findUnique_def db_update_def or_empty_def Let_def)


lemma error_note_free: "\<not> js_includes transcript_error_note placeholder"
  by (simp add: js_includes_sublist transcript_error_note_def placeholder_Cons placeholder_Nil)

lemma prefix_within:
  assumes "prefix p (xs @ ys)" "length p \<le> length xs"
  shows "prefix p xs"
  using assms by (auto simp: prefix_append)

lemma replace_first_occurrence:
  assumes "p \<noteq> []" "\<not> sublist p (pre @ butlast p)"
  shows "replace (pre @ p @ post) p r = pre @ r @ post"
  using assms(2)
proof (induction pre)
  case Nil
  from assms(1) obtain c cs where eq: "p @ post = c # cs" by (cases p) auto
  have "prefix p (p @ post)" by simp
  moreover have "drop (length p) (p @ post) = post" by simp
  ultimately have "replace (p @ post) p r = r @ post"
    unfolding eq by simp
  then show ?case by simp
next
  case (Cons x pre)
  from assms(1) obtain b l where p: "p = b @ [l]" by (cases p rule: rev_cases) auto
  have "\<not> prefix p (x # pre @ p @ post)"
  proof
    assume "prefix p (x # pre @ p @ post)"
    then have "prefix p (((x # pre) @ b) @ (l # post))"
      by (simp add: p)
    moreover have "length p \<le> length ((x # pre) @ b)"
      by (simp add: p)
    ultimately have "prefix p ((x # pre) @ b)"
      by (rule prefix_within)
    with Cons.prems show False by (auto simp: p sublist_Cons_right)
  qed
  moreover from Cons.prems have "\<not> sublist p (pre @ butlast p)"
    by (auto simp: sublist_Cons_right)
  ultimately show ?case using Cons.IH by simp
qed

lemma first_occurrence_exists:
  assumes "p \<noteq> []" "sublist p s"
  shows "\<exists>pre post. s = pre @ p @ post \<and> \<not> sublist p (pre @ butlast p)"
  using assms(2)
proof (induction s)
  case Nil
  with assms(1) show ?case by simp
next
  case (Cons c cs)
  show ?case
  proof (cases "prefix p (c # cs)")
    case True
    then obtain post where "c # cs = [] @ p @ post" by (auto simp: prefix_def)
    moreover have "\<not> sublist p ([] @ butlast p)"
      using assms(1) sublist_length_le [of p "butlast p"] by (cases p rule: rev_cases) auto
    ultimately show ?thesis by blast
  next
    case False
    with Cons.prems have "sublist p cs" by (simp add: sublist_Cons_right)
    then obtain pre post where cs: "cs = pre @ p @ post" and free: "\<not> sublist p (pre @ butlast p)"
      using Cons.IH by blast
    from assms(1) obtain b l where p: "p = b @ [l]" by (cases p rule: rev_cases) auto
    have "\<not> prefix p (c # pre @ butlast p)"
    proof
      assume "prefix p (c # pre @ butlast p)"
      then have "prefix p ((c # pre @ b) @ (l # post))"
        unfolding p butlast_snoc by (rule prefix_prefix)
      then have "prefix p (c # pre @ p @ post)" by (simp add: p)
      with cs False show False by simp
    qed
    with free have "\<not> sublist p ((c # pre) @ butlast p)"
      by (simp add: sublist_Cons_right)
    moreover from cs have "c # cs = (c # pre) @ p @ post" by simp
    ultimately show ?thesis by blast
  qed
qed


lemma placeholder_caption_line:
  "build_transcriptMarkdown (Some placeholder_caption)
   = transcript_heading @ ''**0:00** - _Fetching transcript..._'' @ nl @ nl"
  by (simp add: build_transcriptMarkdown_Some placeholder_caption_def transcript_line_def
      minutes_of_div seconds_of_eq padStart0_def nat_toString_digit digit_char_def nl_def)

text \<open>
  C10, as stated, fails in its last part: a second call does not always leave two appended
  blocks. When a caption contains the placeholder text and the stored Markdown has no
  other occurrence, the second call removes the text from the block that the first call
  appended: the Markdown then holds that block without its caption, followed by one whole
  block.
\<close>

theorem continuation_damages_first_block:
  "fst (transcript_POST_saving (demo_env None (Resolved placeholder_caption))
          (snd (transcript_POST_saving (demo_env None (Resolved placeholder_caption))
                  \<lparr>st_users = [], st_documents = [demo_document]\<rparr> ''https://youtu.be/abc''))
          ''https://youtu.be/abc'')
   = Ok (Some (''Notes'' @ transcript_heading @ ''**0:00** - '' @ nl @ nl
                @ transcript_heading @ ''**0:00** - _Fetching transcript..._'' @ nl @ nl))
   \<and> \<not> js_includes
         (''Notes'' @ transcript_heading @ ''**0:00** - '' @ nl @ nl
            @ transcript_heading @ ''**0:00** - _Fetching transcript..._'' @ nl @ nl)
         ((transcript_heading @ ''**0:00** - _Fetching transcript..._'' @ nl @ nl)
            @ (transcript_heading @ ''**0:00** - _Fetching transcript..._'' @ nl @ nl))"
proof -
  let ?E = "demo_env None (Resolved placeholder_caption)"
  let ?url = "''https://youtu.be/abc''"
  let ?b = "\<lparr>body_docId = Some ''doc_1'', body_url = Some ?url\<rparr>"
  let ?block = "transcript_heading @ ''**0:00** - _Fetching transcript..._'' @ nl @ nl"
  have block: "build_transcriptMarkdown (fetchTranscriptWithTimeout ?E ?url) = ?block"
    by (simp add: fetchTranscriptWithTimeout_def demo_env_def placeholder_caption_line)
  have once: "transcript_POST_saving ?E \<lparr>st_users = [], st_documents = [demo_document]\<rparr> ?url
      = (Ok (Some (''Notes'' @ ?block)),
         \<lparr>st_users = [], st_documents = [demo_document\<lparr>doc_markdown := Some (''Notes'' @ ?block)\<rparr>]\<rparr>)"
    using transcript_POST_saving_ok [of ?E demo_user ?url ?b "''doc_1''" ?url
        "\<lparr>st_users = [], st_documents = [demo_document]\<rparr>" demo_document]
    unfolding block
    by (simp add: demo_env_def demo_user_def demo_document_def or_empty_def update_markdown_def)
  have twice: "fst (transcript_POST_saving ?E
        \<lparr>st_users = [], st_documents = [demo_document\<lparr>doc_markdown := Some (''Notes'' @ ?block)\<rparr>]\<rparr> ?url)
      = Ok (Some (update_markdown (''Notes'' @ ?block) ?block))"
    using transcript_POST_saving_ok [of ?E demo_user ?url ?b "''doc_1''" ?url
        "\<lparr>st_users = [], st_documents = [demo_document\<lparr>doc_markdown := Some (''Notes'' @ ?block)\<rparr>]\<rparr>"
        "demo_document\<lparr>doc_markdown := Some (''Notes'' @ ?block)\<rparr>"]
    unfolding block
    by (simp add: demo_env_def demo_user_def demo_document_def or_empty_def)
  have "update_markdown (''Notes'' @ ?block) ?block
      = ''Notes'' @ transcript_heading @ ''**0:00** - '' @ nl @ nl @ ?block"
    by (simp add: update_markdown_def transcript_heading_def nl_def)
  moreover have "\<not> js_includes
         (''Notes'' @ transcript_heading @ ''**0:00** - '' @ nl @ nl @ ?block) (?block @ ?block)"
    by (simp add: transcript_heading_def nl_def)
  ultimately show ?thesis
    using once twice by simp
qed


text \<open>
  C10, amended. A successful call of the transcript continuation stores and returns the old
  Markdown with only the first occurrence of the placeholder removed, followed by the block
  it built: a Markdown without the placeholder is kept whole, and in \<open>pre @ placeholder @ post\<close>,
  where no occurrence starts in \<open>pre\<close>, exactly that occurrence is removed, whatever
  \<open>post\<close> contains. The update is not idempotent: a second call on the same document never
  gives the Markdown of the first, and when the block does not itself contain the
  placeholder text (an error note never does) the Markdown after the second call ends with
  two blocks.
\<close>

theorem continuation_first_occurrence:
  assumes "currentUser E = Some u" and "JSON_parse E text = Inr b"
    and "body_docId b = Some docId" and "docId \<noteq> []"
    and "body_url b = Some url" and "url \<noteq> []"
    and "db_error E FindUnique = None" and "db_error E Update = None"
    and "find (\<lambda>d. doc_id d = docId) (st_documents st) = Some doc"
    and "doc_userId doc = user_id u"
  shows "let old = or_empty (doc_markdown doc);
             block = build_transcriptMarkdown (fetchTranscriptWithTimeout E url);
             once = transcript_POST_saving E st text;
             twice = transcript_POST_saving E (snd once) text
         in (\<not> js_includes old placeholder \<longrightarrow> fst once = Ok (Some (old @ block)))
          \<and> (old = pre @ placeholder @ post \<and> \<not> js_includes (pre @ butlast placeholder) placeholder
               \<longrightarrow> fst once = Ok (Some (pre @ post @ block)))
          \<and> (js_includes old placeholder \<longrightarrow>
                (\<exists>pre post. old = pre @ placeholder @ post
                   \<and> \<not> js_includes (pre @ butlast placeholder) placeholder))
          \<and> fst once = Ok (Some (replace old placeholder [] @ block))
          \<and> map_option doc_markdown (find (\<lambda>d. doc_id d = docId) (st_documents (snd once)))
              = Some (Some (replace old placeholder [] @ block))
          \<and> fst twice \<noteq> fst once
          \<and> (\<not> js_includes block placeholder \<longrightarrow>
                fst twice
                  = Ok (Some (replace (replace old placeholder []) placeholder [] @ block @ block))
                \<and> (\<not> js_includes old placeholder \<longrightarrow>
                      fst twice = Ok (Some (old @ block @ block))))"
proof -
  define old where "old = or_empty (doc_markdown doc)"
  define block where "block = build_transcriptMarkdown (fetchTranscriptWithTimeout E url)"
  define new where "new = update_markdown old block"
  define st' where "st' = st\<lparr>st_documents :=
      map (\<lambda>d. if doc_id d = docId then d\<lparr>doc_markdown := Some new\<rparr> else d) (st_documents st)\<rparr>"
  have once: "transcript_POST_saving E st text = (Ok (Some new), st')"
    unfolding new_def st'_def old_def block_def using assms by (rule transcript_POST_saving_ok)
  have found: "find (\<lambda>d. doc_id d = docId) (st_documents st') = Some (doc\<lparr>doc_markdown := Some new\<rparr>)"
    by (simp add: st'_def find_map_update assms(9))
  have "transcript_POST_saving E st' text =
    (Ok (Some (update_markdown (or_empty (doc_markdown (doc\<lparr>doc_markdown := Some new\<rparr>)))
                 (build_transcriptMarkdown (fetchTranscriptWithTimeout E url)))),
     st'\<lparr>st_documents :=
          map (\<lambda>d. if doc_id d = docId
                    then d\<lparr>doc_markdown := Some (update_markdown
                             (or_empty (doc_markdown (doc\<lparr>doc_markdown := Some new\<rparr>)))
                             (build_transcriptMarkdown (fetchTranscriptWithTimeout E url)))\<rparr>
                    else d) (st_documents st')\<rparr>)"
    using assms(1-8) found
  proof (rule transcript_POST_saving_ok)
    show "doc_userId (doc\<lparr>doc_markdown := Some new\<rparr>) = user_id u"
      using assms(10) by simp
  qed
  then have twice: "fst (transcript_POST_saving E st' text) = Ok (Some (update_markdown new block))"
    by (simp add: or_empty_def block_def)
  have new: "new = replace old placeholder [] @ block"
    by (simp add: new_def update_markdown_def placeholder_def)
  have absent: "\<not> js_includes old placeholder \<longrightarrow> new = old @ block"
    by (simp add: new_def update_markdown_absent)
  have first: "old = pre @ placeholder @ post \<and> \<not> js_includes (pre @ butlast placeholder) placeholder
      \<longrightarrow> new = pre @ post @ block"
    using replace_first_occurrence [OF placeholder_Nil, of pre post "[]"]
    by (auto simp: new js_includes_sublist)
  have exists: "js_includes old placeholder \<longrightarrow>
      (\<exists>pre post. old = pre @ placeholder @ post
         \<and> \<not> js_includes (pre @ butlast placeholder) placeholder)"
    using first_occurrence_exists [OF placeholder_Nil, of old]
    by (simp add: js_includes_sublist)
  have differ: "update_markdown new block \<noteq> new"
    unfolding new_def block_def by (rule update_markdown_not_idempotent)
  have two: "\<not> js_includes block placeholder \<longrightarrow>
      update_markdown new block = replace (replace old placeholder []) placeholder [] @ block @ block"
    unfolding new_def block_def by (simp add: update_markdown_twice)
  have two_absent: "\<not> js_includes block placeholder \<longrightarrow> \<not> js_includes old placeholder \<longrightarrow>
      update_markdown new block = old @ block @ block"
    using two by (simp add: js_includes_sublist replace_absent)
  show ?thesis
    unfolding Let_def old_def [symmetric] block_def [symmetric]
    using once twice found new absent first exists differ two two_absent
    by simp
qed

theorem continuation_first_occurrence_witness:
  "fst (transcript_POST_saving (demo_env None TimedOut)
          \<lparr>st_users = [], st_documents = [marked_document]\<rparr> ''https://youtu.be/abc'')
     = Ok (Some (''Intro  and _Fetching transcript..._'' @ transcript_error_note))
   \<and> fst (transcript_POST_saving (demo_env None TimedOut)
          (snd (transcript_POST_saving (demo_env None TimedOut)
                  \<lparr>st_users = [], st_documents = [marked_document]\<rparr> ''https://youtu.be/abc''))
          ''https://youtu.be/abc'')
     = Ok (Some (''Intro  and '' @ transcript_error_note @ transcript_error_note))"
  using continuation_first_occurrence [of "demo_env None TimedOut" demo_user "''https://youtu.be/abc''"
      "\<lparr>body_docId = Some ''doc_1'', body_url = Some ''https://youtu.be/abc''\<rparr>" "''doc_1''"
      "''https://youtu.be/abc''" "\<lparr>st_users = [], st_documents = [marked_document]\<rparr>"
      marked_document "''Intro ''" "'' and _Fetching transcript..._''"]
    error_note_free
  by (simp add: demo_env_def demo_user_def marked_document_def Let_def or_empty_def
      fetchTranscriptWithTimeout_def build_transcriptMarkdown_None placeholder_def)


section \<open>The two-phase video flow\<close>

lemma find_append_fresh:
  "i \<notin> doc_id ` set docs \<Longrightarrow>
   find (\<lambda>d. doc_id d = i) (docs @ [d0]) = (if doc_id d0 = i then Some d0 else None)"
  by (induction docs) auto

lemma isYoutubeUrl_nonempty: "isYoutubeUrl url \<Longrightarrow> url \<noteq> []"
  by (auto simp: isYoutubeUrl_def)

lemma processor_POST_saving_youtube:
  assumes "currentUser E = Some u" and "limit_reached E st u = Inr False"
    and "parse_body E text = Inr b" and "body_url b = Some url" and "isYoutubeUrl url"
    and "db_error E Create = None" and "db_new_id E \<notin> doc_id ` set (st_documents st)"
  shows "processor_POST_saving E st text =
    (Ok \<lparr>sr_id = db_new_id E, sr_page = youtube_mode (getYouTubeMetadata E url) url,
          sr_warning = None\<rparr>,
     (user_sync E st u)\<lparr>st_documents := st_documents st @
        [\<lparr>doc_id = db_new_id E, doc_url = url,
          doc_title = str_or (pg_title (youtube_mode (getYouTubeMetadata E url) url)) ''Untitled'',
          doc_siteName = pg_siteName (youtube_mode (getYouTubeMetadata E url) url),
          doc_markdown = Some (pg_markdown (youtube_mode (getYouTubeMetadata E url) url)),
          doc_userId = user_id u\<rparr>]\<rparr>)"
  using assms isYoutubeUrl_nonempty [of url]
  by (simp add: processor_POST_saving_def save_document_def db_create_def user_sync_documents Let_def)

lemma pg_markdown_youtube_mode:
  "pg_markdown (youtube_mode m url)
   = youtube_markdown
       (str_or (case m of None \<Rightarrow> [] | Some d \<Rightarrow> md_title d) (''YouTube Transcript: '' @ url))
       (str_or (case m of None \<Rightarrow> [] | Some d \<Rightarrow> md_channel d) ''YouTube'')
       (case m of None \<Rightarrow> [] | Some d \<Rightarrow> md_description d) url"
  by (simp add: youtube_mode_def Let_def)

lemma youtube_mode_header:
  assumes "metadata_free m" and "\<not> js_includes url placeholder"
  shows "\<exists>header. pg_markdown (youtube_mode m url) = header @ nl @ placeholder
                 \<and> \<not> sublist placeholder header"
proof -
  let ?title = "str_or (case m of None \<Rightarrow> [] | Some d \<Rightarrow> md_title d) (''YouTube Transcript: '' @ url)"
  let ?siteName = "str_or (case m of None \<Rightarrow> [] | Some d \<Rightarrow> md_channel d) ''YouTube''"
  let ?description = "case m of None \<Rightarrow> [] | Some d \<Rightarrow> md_description d"
  have "\<not> sublist placeholder ?title" "\<not> sublist placeholder ?siteName"
    "\<not> sublist placeholder ?description" "\<not> sublist placeholder url"
    using assms
    by (auto simp: str_or_def metadata_free_def js_includes_sublist placeholder_free
        split: option.splits)
  then have "\<not> sublist placeholder (youtube_header ?title ?siteName ?description url)"
    by (rule youtube_header_free)
  then show ?thesis
    using pg_markdown_youtube_mode [of m url] youtube_markdown_header by metis
qed

lemma update_markdown_header:
  assumes "\<not> sublist placeholder header"
  shows "update_markdown (header @ nl @ placeholder) block = header @ nl @ block"
proof -
  have "replace (header @ CHR 0x0A # placeholder) placeholder [] = header @ CHR 0x0A # []"
    using _ placeholder_Nil assms by (rule replace_at_end) (simp add: placeholder_def)
  then show ?thesis
    by (simp add: update_markdown_def nl_def placeholder_def)
qed

lemma final_free_on_failure:
  assumes "\<not> sublist placeholder header"
  shows "\<not> js_includes (header @ nl @ transcript_error_note) placeholder"
  using assms
  by (simp add: js_includes_sublist nl_def transcript_error_note_def placeholder_free)

lemma note_present:
  "js_includes (header @ nl @ transcript_error_note) ''Could not fetch transcript''"
proof -
  have "header @ nl @ transcript_error_note
        = (header @ nl @ [CHR 0x0A, CHR 0x0A] @ ''**Error:** '') @ ''Could not fetch transcript''
            @ ('' (Captions might be disabled)'' @ [CHR 0x0A])"
    by (simp add: transcript_error_note_def)
  then show ?thesis
    unfolding js_includes_sublist sublist_def by blast
qed

lemma heading_present:
  "js_includes (header @ nl @ build_transcriptMarkdown (Some items)) ''## Transcript''"
proof -
  have "header @ nl @ build_transcriptMarkdown (Some items)
        = (header @ nl @ [CHR 0x0A, CHR 0x0A]) @ ''## Transcript''
            @ ([CHR 0x0A, CHR 0x0A] @ concat (map transcript_line items))"
    by (simp add: build_transcriptMarkdown_Some transcript_heading_def)
  then show ?thesis
    unfolding js_includes_sublist sublist_def by blast
qed

lemma placeholder_present: "js_includes (header @ nl @ placeholder) placeholder"
proof -
  have "header @ nl @ placeholder = (header @ nl) @ placeholder @ []" by simp
  then show ?thesis
    unfolding js_includes_sublist sublist_def by blast
qed


text \<open>
  C1, as stated, fails: the continuation removes the first occurrence of the placeholder
  text, and for a video whose title is that text the first occurrence is in the title.
  After a transcript request that timed out the stored Markdown still ends with
  the placeholder, followed by the error note.
\<close>

theorem two_phase_placeholder_remains:
  "fst (transcript_POST_saving (demo_env (Some placeholder_titled) TimedOut)
          (snd (processor_POST_saving (demo_env (Some placeholder_titled) TimedOut) empty_store
                  ''https://youtu.be/abc''))
          ''https://youtu.be/abc'')
   = Ok (Some (''# '' @ nl
          @ ''**Channel:** A channel | **Source:** [YouTube](https://youtu.be/abc)'' @ nl @ nl
          @ ''> About'' @ nl @ nl @ ''_Fetching transcript..._'' @ nl @ nl
          @ ''**Error:** Could not fetch transcript (Captions might be disabled)'' @ nl))
   \<and> js_includes (''# '' @ nl
          @ ''**Channel:** A channel | **Source:** [YouTube](https://youtu.be/abc)'' @ nl @ nl
          @ ''> About'' @ nl @ nl @ ''_Fetching transcript..._'' @ nl @ nl
          @ ''**Error:** Could not fetch transcript (Captions might be disabled)'' @ nl)
        ''_Fetching transcript..._''"
proof -
  let ?E = "demo_env (Some placeholder_titled) TimedOut"
  let ?url = "''https://youtu.be/abc''"
  let ?b = "\<lparr>body_docId = Some ''doc_1'', body_url = Some ?url\<rparr>"
  have first: "snd (processor_POST_saving ?E empty_store ?url) =
     \<lparr>st_users = [(''user_1'', ''ada@example.com'')],
      st_documents = [\<lparr>doc_id = ''doc_1'', doc_url = ?url, doc_title = ''_Fetching transcript..._'',
        doc_siteName = ''A channel'',
        doc_markdown = Some (pg_markdown (youtube_mode (Some placeholder_titled) ?url)),
        doc_userId = ''user_1''\<rparr>]\<rparr>"
    using processor_POST_saving_youtube [of ?E demo_user empty_store ?url ?b ?url]
    by (simp add: demo_env_def demo_user_def empty_store_def limit_reached_def db_count_def
        parse_body_def isYoutubeUrl_def user_sync_def db_upsert_user_def youtube_mode_def
        placeholder_titled_def str_or_def Let_def)
  have md: "pg_markdown (youtube_mode (Some placeholder_titled) ?url)
      = ''# _Fetching transcript..._'' @ nl
          @ ''**Channel:** A channel | **Source:** [YouTube](https://youtu.be/abc)'' @ nl @ nl
          @ ''> About'' @ nl @ nl @ ''_Fetching transcript..._''"
    by (simp add: youtube_mode_def youtube_markdown_def placeholder_titled_def str_or_def
        placeholder_def Let_def)
  have "fst (transcript_POST_saving ?E (snd (processor_POST_saving ?E empty_store ?url)) ?url)
      = Ok (Some (update_markdown (pg_markdown (youtube_mode (Some placeholder_titled) ?url))
                    transcript_error_note))"
    unfolding first
    by (simp add: transcript_POST_saving_def demo_env_def demo_user_def db_findUnique_def
        db_update_def or_empty_def fetchTranscriptWithTimeout_def build_transcriptMarkdown_None
        Let_def)
  moreover have "update_markdown (pg_markdown (youtube_mode (Some placeholder_titled) ?url))
                    transcript_error_note
      = ''# '' @ nl
          @ ''**Channel:** A channel | **Source:** [YouTube](https://youtu.be/abc)'' @ nl @ nl
          @ ''> About'' @ nl @ nl @ ''_Fetching transcript..._'' @ nl @ nl
          @ ''**Error:** Could not fetch transcript (Captions might be disabled)'' @ nl"
    unfolding md by (simp add: update_markdown_def nl_def transcript_error_note_def)
  moreover have "js_includes (''# '' @ nl
          @ ''**Channel:** A channel | **Source:** [YouTube](https://youtu.be/abc)'' @ nl @ nl
          @ ''> About'' @ nl @ nl @ ''_Fetching transcript..._'' @ nl @ nl
          @ ''**Error:** Could not fetch transcript (Captions might be disabled)'' @ nl)
        ''_Fetching transcript..._''"
    by (simp add: nl_def)
  ultimately show ?thesis by simp
qed


text \<open>
  C1, amended. Let the URL of a video and the title, channel and description resolved
  for it not contain the placeholder text. The metadata request stores and returns a
  document with \<^verbatim>\<open>needsTranscript = true\<close> whose Markdown ends with the placeholder. The
  transcript request on this document then stores and returns that Markdown with the
  placeholder replaced by the block it built: the final Markdown contains
  \<^verbatim>\<open>## Transcript\<close> when the transcript was fetched, and when the request failed or
  timed out it contains the note \<^verbatim>\<open>Could not fetch transcript\<close> and no placeholder.
\<close>

theorem two_phase_video_flow:
  assumes "currentUser E = Some u" and "limit_reached E st u = Inr False"
    and "parse_body E text = Inr b" and "body_url b = Some url" and "isYoutubeUrl url"
    and "db_error E Create = None" and "db_new_id E \<notin> doc_id ` set (st_documents st)"
    and "currentUser E' = Some u" and "JSON_parse E' text' = Inr b'"
    and "body_docId b' = Some (db_new_id E)" and "db_new_id E \<noteq> []"
    and "body_url b' = Some url"
    and "db_error E' FindUnique = None" and "db_error E' Update = None"
    and "metadata_free (getYouTubeMetadata E url)" and "\<not> js_includes url placeholder"
  shows "let first = processor_POST_saving E st text;
             second = transcript_POST_saving E' (snd first) text';
             pg = youtube_mode (getYouTubeMetadata E url) url;
             block = build_transcriptMarkdown (fetchTranscriptWithTimeout E' url)
         in fst first = Ok \<lparr>sr_id = db_new_id E, sr_page = pg, sr_warning = None\<rparr>
          \<and> pg_needsTranscript pg
          \<and> js_includes (pg_markdown pg) placeholder
          \<and> map_option doc_markdown
                (find (\<lambda>d. doc_id d = db_new_id E) (st_documents (snd first)))
              = Some (Some (pg_markdown pg))
          \<and> (\<exists>header final.
                pg_markdown pg = header @ nl @ placeholder
                \<and> final = header @ nl @ block
                \<and> fst second = Ok (Some final)
                \<and> map_option doc_markdown
                      (find (\<lambda>d. doc_id d = db_new_id E) (st_documents (snd second)))
                    = Some (Some final)
                \<and> (case YoutubeTranscript_fetchTranscript E' url of
                      Resolved items \<Rightarrow> js_includes final ''## Transcript''
                    | Rejected e \<Rightarrow>
                        js_includes final ''Could not fetch transcript''
                        \<and> \<not> js_includes final placeholder
                    | TimedOut \<Rightarrow>
                        js_includes final ''Could not fetch transcript''
                        \<and> \<not> js_includes final placeholder))"
proof -
  define pg where "pg = youtube_mode (getYouTubeMetadata E url) url"
  define block where "block = build_transcriptMarkdown (fetchTranscriptWithTimeout E' url)"
  define doc where "doc =
    \<lparr>doc_id = db_new_id E, doc_url = url, doc_title = str_or (pg_title pg) ''Untitled'',
     doc_siteName = pg_siteName pg, doc_markdown = Some (pg_markdown pg), doc_userId = user_id u\<rparr>"
  define st1 where "st1 = (user_sync E st u)\<lparr>st_documents := st_documents st @ [doc]\<rparr>"
  have first: "processor_POST_saving E st text
               = (Ok \<lparr>sr_id = db_new_id E, sr_page = pg, sr_warning = None\<rparr>, st1)"
    unfolding st1_def doc_def pg_def using assms(1-7) by (rule processor_POST_saving_youtube)
  have found1: "find (\<lambda>d. doc_id d = db_new_id E) (st_documents st1) = Some doc"
    using assms(7) by (simp add: st1_def find_append_fresh doc_def)
  obtain header where header: "pg_markdown pg = header @ nl @ placeholder"
    and free: "\<not> sublist placeholder header"
    using youtube_mode_header [OF assms(15,16)] pg_def by blast
  define final where "final = header @ nl @ block"
  have upd: "update_markdown (or_empty (doc_markdown doc)) block = final"
    using free by (simp add: doc_def or_empty_def header final_def update_markdown_header)
  have url: "url \<noteq> []"
    using assms(5) by (rule isYoutubeUrl_nonempty)
  have owner: "doc_userId doc = user_id u"
    by (simp add: doc_def)
  have second: "transcript_POST_saving E' st1 text' =
    (Ok (Some final),
     st1\<lparr>st_documents :=
          map (\<lambda>d. if doc_id d = db_new_id E then d\<lparr>doc_markdown := Some final\<rparr> else d)
            (st_documents st1)\<rparr>)"
    using transcript_POST_saving_ok [OF assms(8,9,10,11,12) url assms(13,14) found1 owner]
    unfolding block_def [symmetric] upd .
  have found2: "map_option doc_markdown
      (find (\<lambda>d. doc_id d = db_new_id E) (st_documents (snd (transcript_POST_saving E' st1 text'))))
    = Some (Some final)"
    by (simp add: second find_map_update found1)
  have outcome: "case YoutubeTranscript_fetchTranscript E' url of
      Resolved items \<Rightarrow> js_includes final ''## Transcript''
    | Rejected e \<Rightarrow> js_includes final ''Could not fetch transcript'' \<and> \<not> js_includes final placeholder
    | TimedOut \<Rightarrow> js_includes final ''Could not fetch transcript'' \<and> \<not> js_includes final placeholder"
    using free
    by (simp add: final_def block_def fetchTranscriptWithTimeout_def heading_present note_present
        final_free_on_failure build_transcriptMarkdown_None split: transcript_outcome.splits)
  have needs: "pg_needsTranscript pg"
    by (simp add: pg_def youtube_mode_def Let_def)
  have has: "js_includes (pg_markdown pg) placeholder"
    by (simp add: header placeholder_present)
  have stored1: "map_option doc_markdown (find (\<lambda>d. doc_id d = db_new_id E) (st_documents st1))
                 = Some (Some (pg_markdown pg))"
    by (simp add: found1 doc_def)
  show ?thesis
    unfolding Let_def pg_def [symmetric] block_def [symmetric]
    using first needs has stored1 header final_def second found2 outcome
    by simp blast
qed


theorem two_phase_video_flow_witness:
  "pg_needsTranscript (youtube_mode (Some demo_metadata) ''https://youtu.be/abc'')
   \<and> (\<exists>header.
         fst (transcript_POST_saving (demo_env (Some demo_metadata) TimedOut)
                (snd (processor_POST_saving (demo_env (Some demo_metadata) TimedOut) empty_store
                        ''https://youtu.be/abc''))
                ''https://youtu.be/abc'')
           = Ok (Some (header @ nl @ transcript_error_note))
         \<and> \<not> js_includes (header @ nl @ transcript_error_note) placeholder)"
  using two_phase_video_flow [of "demo_env (Some demo_metadata) TimedOut" demo_user empty_store
      "''https://youtu.be/abc''" "\<lparr>body_docId = Some ''doc_1'', body_url = Some ''https://youtu.be/abc''\<rparr>"
      "''https://youtu.be/abc''" "demo_env (Some demo_metadata) TimedOut" "''https://youtu.be/abc''"
      "\<lparr>body_docId = Some ''doc_1'', body_url = Some ''https://youtu.be/abc''\<rparr>"]
  by (auto simp: demo_env_def demo_user_def empty_store_def demo_metadata_def limit_reached_def
      db_count_def parse_body_def isYoutubeUrl_def metadata_free_def placeholder_def Let_def
      fetchTranscriptWithTimeout_def build_transcriptMarkdown_None)

end
